theory Spec2Isabelle
  imports Complex_Main
begin

section \<open>Common Python values\<close>

text \<open>
  Exceptions are values: every function of the source that can raise returns
  \<open>py_error + 'a\<close>, with \<open>Inl\<close> for the exception.  Floats are modelled as
  \<open>real\<close>: rounding to float32 (\<open>astype(np.float32)\<close>) is the identity here, and
  NaN and infinities do not occur.  A text is a \<open>string\<close>, one \<open>char\<close> per
  code point below 256.
\<close>

datatype py_error = IndexError | KeyError | ValueError | TypeError | OSError

datatype level = DEBUG | INFO | WARNING | ERROR

type_synonym log = "(level \<times> string) list"

type_synonym vec = "real list"

type_synonym matrix = "real list list"

definition py_getitem :: "'a list \<Rightarrow> int \<Rightarrow> py_error + 'a" where
  \<comment> \<open>\<open>xs[i]\<close> with Python's indexing from the end for \<open>i < 0\<close>\<close>
  "py_getitem xs i =
     (if 0 \<le> i \<and> i < int (length xs) then Inr (xs ! nat i)
      else if i < 0 \<and> - int (length xs) \<le> i then Inr (xs ! nat (int (length xs) + i))
      else Inl IndexError)"

definition slice_to :: "'a list \<Rightarrow> int \<Rightarrow> 'a list" where
  \<comment> \<open>\<open>xs[:k]\<close>\<close>
  "slice_to xs k =
     (if k < 0 then take (nat (int (length xs) + k)) xs else take (nat k) xs)"

definition slice_from :: "'a list \<Rightarrow> int \<Rightarrow> 'a list" where
  \<comment> \<open>\<open>xs[j:]\<close>\<close>
  "slice_from xs j =
     (if j < 0 then drop (nat (int (length xs) + j)) xs else drop (nat j) xs)"

section \<open>indexing/vector\_index.py\<close>

datatype faiss_kind = IndexFlatIP | IndexFlatL2

text \<open>
  \<open>self.index\<close> is a FAISS flat index (its kind, its dimension, the rows added)
  or, without FAISS, the float32 matrix itself.
\<close>

datatype index = Faiss faiss_kind nat matrix | Numpy matrix

record 'm vector_index =
  index_dir :: string
  use_faiss :: bool
  metric :: string
  index :: "index option"
  metadata :: "'m list"
  dimension :: "nat option"

definition init_index :: "string \<Rightarrow> bool \<Rightarrow> string \<Rightarrow> 'm vector_index" where
  \<comment> \<open>\<open>VectorIndex.__init__\<close>: the three values read from the configuration.\<close>
  "init_index dir faiss m =
     \<lparr>index_dir = dir, use_faiss = faiss, metric = m,
      index = None, metadata = [], dimension = None\<rparr>"

definition l2_norm :: "vec \<Rightarrow> real" where
  "l2_norm v = sqrt (sum_list (map (\<lambda>x. x * x) v))"

definition normalize_L2 :: "vec \<Rightarrow> vec" where
  \<comment> \<open>\<open>faiss.normalize_L2\<close> on one row: a zero row is left as it is.\<close>
  "normalize_L2 v = (let n = l2_norm v in if n = 0 then v else map (\<lambda>x. x / n) v)"

definition build :: "'m vector_index \<Rightarrow> matrix \<Rightarrow> 'm list \<Rightarrow> 'm vector_index \<times> log" where
  "build self embeddings md =
     (if length embeddings = 0 then
        (self, [(WARNING, ''No embeddings provided to build index'')])
      else
        let d = length (hd embeddings) in
        if use_faiss self then
          (if metric self = ''cosine'' then
             (self\<lparr>metadata := md, dimension := Some d,
                   index := Some (Faiss IndexFlatIP d (map normalize_L2 embeddings))\<rparr>,
              [(INFO, ''Built FAISS index'')])
           else
             (self\<lparr>metadata := md, dimension := Some d,
                   index := Some (Faiss IndexFlatL2 d embeddings)\<rparr>,
              [(INFO, ''Built FAISS index'')]))
        else
          (self\<lparr>metadata := md, dimension := Some d, index := Some (Numpy embeddings)\<rparr>,
           [(INFO, ''Built numpy index'')]))"

subsection \<open>save and load\<close>

text \<open>
  The pickled envelope is a dictionary; a foreign file may lack any of its keys,
  and \<open>dimension\<close> is \<open>None\<close> when an unbuilt index was saved.
\<close>

datatype 'm pickled =
    Envelope (e_metadata: "'m list option") (e_dimension: "nat option option")
             (e_metric: "string option")
  | NotADict

datatype 'm artifact =
    Pickle "'m pickled"
  | FaissFile faiss_kind nat matrix
  | NpyFile matrix
  | NpyObject
  | Garbage

record 'm filesystem =
  files :: "string \<Rightarrow> 'm artifact option"
  writable :: "string \<Rightarrow> bool"

definition path_join :: "string \<Rightarrow> string \<Rightarrow> string" where
  \<comment> \<open>\<open>os.path.join(dir, name)\<close> for a relative \<open>name\<close>\<close>
  "path_join dir name = dir @ ''/'' @ name"

definition index_path :: "'m vector_index \<Rightarrow> string \<Rightarrow> string" where
  "index_path self name = path_join (index_dir self) (name @ ''.index'')"

definition metadata_path :: "'m vector_index \<Rightarrow> string \<Rightarrow> string" where
  "metadata_path self name = path_join (index_dir self) (name @ ''.metadata'')"

definition write_file :: "'m filesystem \<Rightarrow> string \<Rightarrow> 'm artifact \<Rightarrow> 'm filesystem" where
  "write_file fs p f = fs\<lparr>files := (files fs)(p \<mapsto> f)\<rparr>"

definition save :: "'m vector_index \<Rightarrow> 'm filesystem \<Rightarrow> string \<Rightarrow> 'm filesystem \<times> log" where
  "save self fs name =
     (let ip = index_path self name; mp = metadata_path self name in
      if \<not> writable fs mp then (fs, [(ERROR, ''Error saving index'')])
      else
        let fs1 = write_file fs mp
              (Pickle (Envelope (Some (metadata self)) (Some (dimension self))
                                (Some (metric self))))
        in
        if use_faiss self then
          (case index self of
             Some (Faiss k d rows) \<Rightarrow>
               if writable fs1 ip then
                 (write_file fs1 ip (FaissFile k d rows), [(INFO, ''Saved index'')])
               else (fs1, [(ERROR, ''Error saving index'')])
           | _ \<Rightarrow> (fs1, [(ERROR, ''Error saving index'')]))
        else
          if \<not> writable fs1 ip then (fs1, [(ERROR, ''Error saving index'')])
          else
            (case index self of
               Some (Numpy rows) \<Rightarrow>
                 (write_file fs1 ip (NpyFile rows), [(INFO, ''Saved index'')])
             | Some (Faiss k d rows) \<Rightarrow>
                 (write_file fs1 ip NpyObject, [(INFO, ''Saved index'')])
             | None \<Rightarrow>
                 (write_file fs1 ip NpyObject, [(INFO, ''Saved index'')])))"

definition load :: "'m vector_index \<Rightarrow> 'm filesystem \<Rightarrow> string \<Rightarrow> bool \<times> 'm vector_index" where
  "load self fs name =
     (let ip = index_path self name; mp = metadata_path self name in
      if files fs ip = None \<or> files fs mp = None then (False, self)
      else
        (case files fs mp of
           Some (Pickle (Envelope emd edim emet)) \<Rightarrow>
             (case emd of
                None \<Rightarrow> (False, self)
              | Some md \<Rightarrow>
                  let s1 = self\<lparr>metadata := md\<rparr> in
                  (case edim of
                     None \<Rightarrow> (False, s1)
                   | Some dv \<Rightarrow>
                       let s2 = s1\<lparr>dimension := dv\<rparr>;
                           s3 = s2\<lparr>metric := (case emet of Some m \<Rightarrow> m
                                                | None \<Rightarrow> metric s2)\<rparr>
                       in
                       if use_faiss self then
                         (case files fs ip of
                            Some (FaissFile k d rows) \<Rightarrow>
                              (True, s3\<lparr>index := Some (Faiss k d rows)\<rparr>)
                          | _ \<Rightarrow> (False, s3))
                       else
                         (case files fs ip of
                            Some (NpyFile rows) \<Rightarrow>
                              (True, s3\<lparr>index := Some (Numpy rows)\<rparr>)
                          | _ \<Rightarrow> (False, s3))))
         | _ \<Rightarrow> (False, self)))"

subsection \<open>search\<close>

text \<open>
  A search result is the metadata entry with the two keys \<open>score\<close> and
  \<open>distance\<close> added.  The FAISS index is an external library: its
  \<open>index.search(query, k)\<close> is a parameter of the model, returning for the one
  query row the pairs \<open>(distances[0][i], indices[0][i])\<close>, or raising.
\<close>

record 'm result =
  meta :: 'm
  score :: real
  distance :: real

type_synonym backend = "index \<Rightarrow> vec \<Rightarrow> int \<Rightarrow> py_error + (real \<times> int) list"

definition eps :: real where
  "eps = 1 / 1000000"

fun np_max :: "real list \<Rightarrow> py_error + real" where
  \<comment> \<open>\<open>np.max\<close> raises on an empty array\<close>
  "np_max [] = Inl ValueError"
| "np_max (x # xs) = Inr (fold max xs x)"

definition argsort :: "real list \<Rightarrow> nat list" where
  \<comment> \<open>\<open>np.argsort\<close>, ascending; equal keys are kept in index order here\<close>
  "argsort xs = sort_key (\<lambda>i. xs ! i) [0..<length xs]"

definition dot :: "vec \<Rightarrow> vec \<Rightarrow> real" where
  "dot u v = sum_list (map2 (*) u v)"

definition cosine_similarity :: "vec \<Rightarrow> matrix \<Rightarrow> py_error + real list" where
  \<comment> \<open>\<open>sklearn.metrics.pairwise.cosine_similarity(query, X)[0]\<close>: both sides are
      normalised (a zero row stays zero); the input check rejects an empty array and
      a different number of columns\<close>
  "cosine_similarity q X =
     (if X = [] \<or> q = [] \<or> (\<exists>x \<in> set X. length x \<noteq> length q) then Inl ValueError
      else Inr (map (\<lambda>x. dot (normalize_L2 q) (normalize_L2 x)) X))"

definition broadcast_sub :: "vec \<Rightarrow> vec \<Rightarrow> py_error + vec" where
  \<comment> \<open>one row of \<open>self.index - query_embedding\<close> under numpy broadcasting\<close>
  "broadcast_sub x q =
     (if length x = length q then Inr (map2 (-) x q)
      else if length q = 1 then Inr (map (\<lambda>a. a - hd q) x)
      else if length x = 1 then Inr (map (\<lambda>b. hd x - b) q)
      else Inl ValueError)"

fun l2_distances :: "matrix \<Rightarrow> vec \<Rightarrow> py_error + real list" where
  \<comment> \<open>\<open>np.sqrt(np.sum(diff * diff, axis=1))\<close>\<close>
  "l2_distances [] q = Inr []"
| "l2_distances (x # X) q =
     (case broadcast_sub x q of
        Inl e \<Rightarrow> Inl e
      | Inr d \<Rightarrow>
          (case l2_distances X q of
             Inl e \<Rightarrow> Inl e
           | Inr ds \<Rightarrow> Inr (l2_norm d # ds)))"

fun faiss_collect :: "'m list \<Rightarrow> (real \<times> real \<times> int) list \<Rightarrow> py_error + 'm result list" where
  \<comment> \<open>the loop over \<open>indices[0]\<close>, on triples (similarity, distance, idx): an idx
      that is not below \<open>len(self.metadata)\<close> is skipped\<close>
  "faiss_collect md [] = Inr []"
| "faiss_collect md ((s, d, idx) # rest) =
     (if idx < int (length md) then
        (case py_getitem md idx of
           Inl e \<Rightarrow> Inl e
         | Inr m \<Rightarrow>
             (case faiss_collect md rest of
                Inl e \<Rightarrow> Inl e
              | Inr rs \<Rightarrow> Inr (\<lparr>meta = m, score = s, distance = d\<rparr> # rs)))
      else faiss_collect md rest)"

fun numpy_collect :: "'m list \<Rightarrow> (nat \<Rightarrow> real \<times> real) \<Rightarrow> nat list \<Rightarrow> py_error + 'm result list" where
  \<comment> \<open>the loop over \<open>top_indices\<close>: \<open>self.metadata[idx]\<close> is read with no test\<close>
  "numpy_collect md f [] = Inr []"
| "numpy_collect md f (idx # rest) =
     (if idx < length md then
        (case numpy_collect md f rest of
           Inl e \<Rightarrow> Inl e
         | Inr rs \<Rightarrow> Inr (\<lparr>meta = md ! idx, score = fst (f idx), distance = snd (f idx)\<rparr> # rs))
      else Inl IndexError)"

definition search :: "backend \<Rightarrow> 'm vector_index \<Rightarrow> vec \<Rightarrow> int \<Rightarrow> py_error + 'm result list" where
  "search B self q top_k =
     (case index self of
        None \<Rightarrow> Inr []
      | Some ix \<Rightarrow>
          let k = min top_k (int (length (metadata self))) in
          if use_faiss self then
            (if metric self = ''cosine'' then
               (case B ix (normalize_L2 q) k of
                  Inl e \<Rightarrow> Inl e
                | Inr hits \<Rightarrow>
                    faiss_collect (metadata self) (map (\<lambda>(d, i). (d, d, i)) hits))
             else
               (case B ix q k of
                  Inl e \<Rightarrow> Inl e
                | Inr hits \<Rightarrow>
                    (case np_max (map fst hits) of
                       Inl e \<Rightarrow> Inl e
                     | Inr m \<Rightarrow>
                         faiss_collect (metadata self)
                           (map (\<lambda>(d, i). (1 - d / (m + eps), d, i)) hits))))
          else
            (case ix of
               Faiss kd d X \<Rightarrow> Inl TypeError
             | Numpy X \<Rightarrow>
                 if metric self = ''cosine'' then
                   (case cosine_similarity q X of
                      Inl e \<Rightarrow> Inl e
                    | Inr sim \<Rightarrow>
                        numpy_collect (metadata self)
                          (\<lambda>idx. (sim ! idx, 1 - sim ! idx))
                          (rev (slice_from (argsort sim) (- k))))
                 else
                   (case l2_distances X q of
                      Inl e \<Rightarrow> Inl e
                    | Inr ds \<Rightarrow>
                        let top = slice_to (argsort ds) k in
                        if top = [] then Inr []
                        else
                          (case np_max ds of
                             Inl e \<Rightarrow> Inl e
                           | Inr m \<Rightarrow>
                               numpy_collect (metadata self)
                                 (\<lambda>idx. (1 - ds ! idx / (m + eps), ds ! idx)) top))))"

text \<open>
  The exact flat indexes of FAISS, as the library documents them, for
  \<open>0 < k \<le> ntotal\<close>: \<open>IndexFlatIP\<close> returns the \<open>k\<close> largest inner products,
  \<open>IndexFlatL2\<close> the \<open>k\<close> smallest squared Euclidean distances.  It is used for
  concrete examples only; every general statement below holds for any backend.
\<close>

definition flat_search :: backend where
  "flat_search ix q k =
     (case ix of
        Numpy X \<Rightarrow> Inl TypeError
      | Faiss IndexFlatIP d X \<Rightarrow>
          if length q \<noteq> d \<or> k \<le> 0 then Inl ValueError
          else Inr (map (\<lambda>i. (dot q (X ! i), int i))
                     (take (nat k) (rev (argsort (map (dot q) X)))))
      | Faiss IndexFlatL2 d X \<Rightarrow>
          if length q \<noteq> d \<or> k \<le> 0 then Inl ValueError
          else Inr (map (\<lambda>i. (dot (map2 (-) (X ! i) q) (map2 (-) (X ! i) q), int i))
                     (take (nat k)
                        (argsort (map (\<lambda>x. dot (map2 (-) x q) (map2 (-) x q)) X)))))"

definition built :: "'m vector_index \<Rightarrow> bool" where
  \<comment> \<open>an index object is present and is of the kind the instance uses\<close>
  "built self =
     (case index self of
        None \<Rightarrow> False
      | Some (Faiss kd d X) \<Rightarrow> use_faiss self
      | Some (Numpy X) \<Rightarrow> \<not> use_faiss self)"

definition index_artifact :: "index \<Rightarrow> 'm artifact" where
  \<comment> \<open>what \<open>faiss.write_index\<close> or \<open>np.save\<close> leaves on disk for an index object\<close>
  "index_artifact ix = (case ix of Faiss k d X \<Rightarrow> FaissFile k d X | Numpy X \<Rightarrow> NpyFile X)"

section \<open>embedding/embedder.py\<close>

text \<open>
  The embedding provider is external: \<open>encode\<close> is one call for one text
  (\<open>local_model.encode(text)\<close> or \<open>self.embedder(text)\<close>), \<open>encode_batch\<close> is
  \<open>local_model.encode(batch_texts)\<close>; both may raise.  The cache directory is a
  map from the MD5 digest of a text to the stored vector; a file that is missing or
  cannot be loaded is \<open>None\<close>, a failed write leaves the cache as it was.
\<close>

record embedder =
  embed_dim :: nat
  use_cache :: bool
  batch_size :: int
  max_workers :: int
  local_model :: bool
  md5 :: "string \<Rightarrow> string"
  cache_writable :: bool
  encode :: "string \<Rightarrow> py_error + vec"
  encode_batch :: "string list \<Rightarrow> py_error + vec list"

type_synonym cache = "string \<Rightarrow> vec option"

definition zeros :: "nat \<Rightarrow> vec" where
  "zeros d = replicate d 0"

definition get_from_cache :: "embedder \<Rightarrow> cache \<Rightarrow> string \<Rightarrow> vec option" where
  "get_from_cache self c text = c (md5 self text)"

definition save_to_cache :: "embedder \<Rightarrow> cache \<Rightarrow> string \<Rightarrow> vec \<Rightarrow> cache" where
  "save_to_cache self c text v = (if cache_writable self then c(md5 self text \<mapsto> v) else c)"

definition embed :: "embedder \<Rightarrow> cache \<Rightarrow> string \<Rightarrow> vec \<times> cache" where
  "embed self c text =
     (case (if use_cache self then get_from_cache self c text else None) of
        Some v \<Rightarrow> (v, c)
      | None \<Rightarrow>
          (case encode self text of
             Inl e \<Rightarrow> (zeros (embed_dim self), c)
           | Inr v \<Rightarrow> (v, if use_cache self then save_to_cache self c text v else c)))"

definition set_row :: "nat \<Rightarrow> vec \<Rightarrow> py_error + vec" where
  \<comment> \<open>\<open>result[i] = v\<close> for a row of length \<open>d\<close>: numpy broadcasts a vector of
      length one and rejects any other length\<close>
  "set_row d v =
     (if length v = d then Inr v
      else if length v = 1 then Inr (replicate d (hd v))
      else Inl ValueError)"

fun cached_rows :: "embedder \<Rightarrow> cache \<Rightarrow> string list \<Rightarrow> py_error + vec option list" where
  \<comment> \<open>the first loop of \<open>_process_batch\<close>: the row of every cached text, \<open>None\<close> for
      a text to embed; the assignment is outside the \<open>try\<close>\<close>
  "cached_rows self c [] = Inr []"
| "cached_rows self c (t # ts) =
     (case (if use_cache self then get_from_cache self c t else None) of
        None \<Rightarrow>
          (case cached_rows self c ts of
             Inl e \<Rightarrow> Inl e
           | Inr rs \<Rightarrow> Inr (None # rs))
      | Some v \<Rightarrow>
          (case set_row (embed_dim self) v of
             Inl e \<Rightarrow> Inl e
           | Inr row \<Rightarrow>
               (case cached_rows self c ts of
                  Inl e \<Rightarrow> Inl e
                | Inr rs \<Rightarrow> Inr (Some row # rs))))"

fun encode_all :: "(string \<Rightarrow> py_error + vec) \<Rightarrow> string list \<Rightarrow> py_error + vec list" where
  \<comment> \<open>\<open>[self.embedder(text) for text in batch_texts]\<close>\<close>
  "encode_all f [] = Inr []"
| "encode_all f (t # ts) =
     (case f t of
        Inl e \<Rightarrow> Inl e
      | Inr v \<Rightarrow>
          (case encode_all f ts of
             Inl e \<Rightarrow> Inl e
           | Inr vs \<Rightarrow> Inr (v # vs)))"

fun store_rows :: "embedder \<Rightarrow> string list \<Rightarrow> vec list \<Rightarrow> cache \<Rightarrow> vec list \<times> cache" where
  \<comment> \<open>the loop \<open>for j, idx in enumerate(batch_indices)\<close> inside the \<open>try\<close>: the
      rows assigned before the first exception, and the cache\<close>
  "store_rows self [] embs c = ([], c)"
| "store_rows self (t # ts) [] c = ([], c)"
| "store_rows self (t # ts) (v # vs) c =
     (case set_row (embed_dim self) v of
        Inl e \<Rightarrow> ([], c)
      | Inr row \<Rightarrow>
          (let r = store_rows self ts vs
                     (if use_cache self then save_to_cache self c t v else c)
           in (row # fst r, snd r)))"

fun merge_rows :: "nat \<Rightarrow> vec option list \<Rightarrow> vec list \<Rightarrow> vec list" where
  \<comment> \<open>the result matrix: cached rows in place, the embedded rows at the positions
      of the misses, zeros where nothing was assigned\<close>
  "merge_rows d [] ms = []"
| "merge_rows d (Some r # cs) ms = r # merge_rows d cs ms"
| "merge_rows d (None # cs) [] = zeros d # merge_rows d cs []"
| "merge_rows d (None # cs) (m # ms) = m # merge_rows d cs ms"

definition misses :: "string list \<Rightarrow> vec option list \<Rightarrow> string list" where
  "misses texts cs = map fst (filter (\<lambda>p. snd p = None) (zip texts cs))"

definition batch_embeddings :: "embedder \<Rightarrow> string list \<Rightarrow> py_error + vec list" where
  \<comment> \<open>the provider call of \<open>_process_batch\<close>: one call for the whole group with a
      local model, one call per text otherwise\<close>
  "batch_embeddings self to_embed =
     (if local_model self then encode_batch self to_embed
      else encode_all (encode self) to_embed)"

definition process_batch :: "embedder \<Rightarrow> cache \<Rightarrow> string list \<Rightarrow> py_error + (vec list \<times> cache)" where
  "process_batch self c texts =
     (case cached_rows self c texts of
        Inl e \<Rightarrow> Inl e
      | Inr cs \<Rightarrow>
          let to_embed = misses texts cs in
          if to_embed = [] then Inr (merge_rows (embed_dim self) cs [], c)
          else
            (case batch_embeddings self to_embed of
               Inl e \<Rightarrow> Inr (merge_rows (embed_dim self) cs [], c)
             | Inr embs \<Rightarrow>
                 (let r = store_rows self to_embed embs c
                  in Inr (merge_rows (embed_dim self) cs (fst r), snd r))))"

function py_range :: "nat \<Rightarrow> nat \<Rightarrow> nat \<Rightarrow> nat list" where
  \<comment> \<open>\<open>range(i, n, s)\<close> for a positive step\<close>
  "py_range i n s = (if s = 0 \<or> n \<le> i then [] else i # py_range (i + s) n s)"
  by pat_completeness auto
termination
  by (relation "measure (\<lambda>(i, n, s). n - i)") auto

declare py_range.simps [simp del]

definition batches_of :: "nat \<Rightarrow> 'a list \<Rightarrow> 'a list list" where
  \<comment> \<open>\<open>[texts[i:i + batch_size] for i in range(0, len(texts), batch_size)]\<close>\<close>
  "batches_of bs texts = map (\<lambda>i. take bs (drop i texts)) (py_range 0 (length texts) bs)"

definition slot_of :: "embedder \<Rightarrow> (nat \<Rightarrow> cache) \<Rightarrow> string list list \<Rightarrow> nat \<Rightarrow> vec list" where
  \<comment> \<open>what the completion loop stores for group \<open>b\<close>: the future's result, or zero
      rows when the future raised\<close>
  "slot_of self views batches b =
     (case process_batch self (views b) (batches ! b) of
        Inr r \<Rightarrow> fst r
      | Inl e \<Rightarrow> replicate (length (batches ! b)) (zeros (embed_dim self)))"

fun collect :: "(nat \<Rightarrow> vec list) \<Rightarrow> nat list \<Rightarrow> vec list option list \<Rightarrow> vec list option list" where
  \<comment> \<open>\<open>for future in as_completed(futures)\<close>: \<open>order\<close> is the order of completion\<close>
  "collect slot [] slots = slots"
| "collect slot (b # order) slots = collect slot order (slots[b := Some (slot b)])"

definition vstack :: "vec list option list \<Rightarrow> py_error + vec list" where
  "vstack slots =
     (if slots = [] \<or> None \<in> set slots then Inl ValueError
      else Inr (concat (map the slots)))"

text \<open>
  Groups run concurrently: \<open>views b\<close> is the cache as group \<open>b\<close> reads it and
  \<open>order\<close> the order in which the futures complete.  The value returned is
  modelled; the cache files the groups write are not part of it.
\<close>

definition batch_size_or :: "embedder \<Rightarrow> int option \<Rightarrow> int" where
  \<comment> \<open>\<open>batch_size or self.batch_size\<close>: an argument of \<open>None\<close> or \<open>0\<close> is falsy\<close>
  "batch_size_or self batch_size_arg =
     (case batch_size_arg of
        None \<Rightarrow> batch_size self
      | Some b \<Rightarrow> if b = 0 then batch_size self else b)"

definition batch_embed ::
  "embedder \<Rightarrow> (nat \<Rightarrow> cache) \<Rightarrow> nat list \<Rightarrow> string list \<Rightarrow> int option \<Rightarrow> py_error + vec list" where
  "batch_embed self views order texts batch_size_arg =
     (if texts = [] then Inr []
      else
        let bs = batch_size_or self batch_size_arg in
        if bs = 0 then Inl ValueError
        else
          let batches = (if bs < 0 then [] else batches_of (nat bs) texts) in
          if max_workers self \<le> 0 then Inl ValueError
          else
            vstack (collect (slot_of self views batches) order
                      (replicate (length batches) None)))"

section \<open>retrieval/retriever.py\<close>

text \<open>
  \<open>format_template.format(...)\<close> is a parameter \<open>render\<close>: it may raise for a
  template that names an unknown field.
\<close>

record 'm code_retriever =
  r_vector_index :: "'m vector_index"
  r_embedder :: embedder
  r_top_k :: int

record 'm context_retriever =
  retriever :: "'m code_retriever option"
  threshold :: "real option"

definition raw_search ::
  "backend \<Rightarrow> 'm code_retriever \<Rightarrow> cache \<Rightarrow> string \<Rightarrow> int option \<Rightarrow> 'm result list \<times> cache" where
  "raw_search B R c code_query k_arg =
     (let e = embed (r_embedder R) c code_query;
          k = (case k_arg of Some k \<Rightarrow> k | None \<Rightarrow> r_top_k R)
      in case search B (r_vector_index R) (fst e) k of
           Inl err \<Rightarrow> ([], snd e)
         | Inr rs \<Rightarrow> (rs, snd e))"

definition raw_query ::
  "backend \<Rightarrow> 'm context_retriever \<Rightarrow> cache \<Rightarrow> string \<Rightarrow> int option
     \<Rightarrow> py_error + ('m result list \<times> cache)" where
  "raw_query B self c q k_arg =
     (case retriever self of
        None \<Rightarrow> Inl ValueError
      | Some R \<Rightarrow> Inr (raw_search B R c q k_arg))"

fun format_all :: "('m result \<Rightarrow> py_error + string) \<Rightarrow> 'm result list \<Rightarrow> py_error + string list" where
  "format_all render [] = Inr []"
| "format_all render (r # rs) =
     (case render r of
        Inl e \<Rightarrow> Inl e
      | Inr s \<Rightarrow>
          (case format_all render rs of
             Inl e \<Rightarrow> Inl e
           | Inr ss \<Rightarrow> Inr (s # ss)))"

definition query ::
  "backend \<Rightarrow> ('m result \<Rightarrow> py_error + string) \<Rightarrow> 'm context_retriever \<Rightarrow> cache \<Rightarrow> string
     \<Rightarrow> real option \<Rightarrow> py_error + (string list \<times> cache)" where
  "query B render self c q threshold_arg =
     (case retriever self of
        None \<Rightarrow> Inl ValueError
      | Some R \<Rightarrow>
          (case raw_query B self c q None of
             Inl e \<Rightarrow> Inl e
           | Inr raw \<Rightarrow>
               let t = (case threshold_arg of None \<Rightarrow> threshold self | Some t \<Rightarrow> Some t);
                   filtered_results =
                     (case t of
                        Some t \<Rightarrow> filter (\<lambda>res. score res \<ge> t) (fst raw)
                      | None \<Rightarrow> fst raw)
               in case format_all render filtered_results of
                    Inl e \<Rightarrow> Inl e
                  | Inr result_strings \<Rightarrow> Inr (result_strings, snd raw)))"

section \<open>extractors\<close>

text \<open>
  Text is a list of characters.  \<open>str.strip\<close> and \<open>str.rstrip\<close> remove the characters
  for which \<open>str.isspace\<close> holds; below code point 256 these are the twelve listed.
\<close>

definition whitespace :: "char list" where
  "whitespace =
     [CHR 0x09, CHR 0x0A, CHR 0x0B, CHR 0x0C, CHR 0x0D, CHR 0x1C, CHR 0x1D, CHR 0x1E,
      CHR 0x1F, CHR 0x20, CHR 0x85, CHR 0xA0]"

definition isspace :: "char \<Rightarrow> bool" where
  "isspace c = (c \<in> set whitespace)"

definition rstrip :: "string \<Rightarrow> string" where
  "rstrip s = rev (dropWhile isspace (rev s))"

definition strip :: "string \<Rightarrow> string" where
  "strip s = dropWhile isspace (rstrip s)"

definition endswith :: "string \<Rightarrow> string \<Rightarrow> bool" where
  "endswith s suffix = (length suffix \<le> length s \<and> drop (length s - length suffix) s = suffix)"

fun find_sub :: "string \<Rightarrow> string \<Rightarrow> nat option" where
  \<comment> \<open>the index of the first occurrence of \<open>pat\<close> in the text\<close>
  "find_sub pat [] = (if pat = [] then Some 0 else None)"
| "find_sub pat (c # cs) =
     (if take (length pat) (c # cs) = pat then Some 0
      else map_option Suc (find_sub pat cs))"

definition count_newlines :: "string \<Rightarrow> nat" where
  \<comment> \<open>\<open>content.count('\n')\<close>\<close>
  "count_newlines s = length (filter (\<lambda>c. c = CHR 0x0A) s)"

definition basename :: "string \<Rightarrow> string" where
  \<comment> \<open>\<open>os.path.basename\<close>: what follows the last slash\<close>
  "basename p = rev (takeWhile (\<lambda>c. c \<noteq> CHR ''/'') (rev p))"

record chunk =
  c_file :: string
  c_name :: string
  c_type :: string
  c_code :: string
  c_docstring :: string
  full_text :: string
  line_start :: nat
  line_end :: nat

text \<open>
  The files on disk: \<open>None\<close> for a path that does not exist, is not a regular file or
  cannot be read as text, the content otherwise.
\<close>

type_synonym disk = "string \<Rightarrow> string option"

definition is_valid_file :: "nat \<Rightarrow> disk \<Rightarrow> string \<Rightarrow> bool" where
  \<comment> \<open>\<open>BaseExtractor.is_valid_file\<close> with \<open>self.max_file_size\<close> as first argument\<close>
  "is_valid_file max_file_size d path =
     (case d path of
        None \<Rightarrow> False
      | Some content \<Rightarrow> length content \<le> max_file_size)"

subsection \<open>extractors/typescript\_extractor.py\<close>

text \<open>
  \<open>re.search(r'/\*\*(.*?)\*/', s, re.DOTALL)\<close> returns the leftmost match: it starts at
  the first \<open>/**\<close> of the text and, the group being lazy and matching any character,
  ends with the first \<open>*/\<close> that begins three or more characters later.  When no
  \<open>*/\<close> follows the first \<open>/**\<close>, none follows a later one.  The result is the pair
  of \<open>group(0)\<close> and \<open>group(1)\<close>.
\<close>

definition jsdoc_search :: "string \<Rightarrow> (string \<times> string) option" where
  "jsdoc_search s =
     (case find_sub ''/**'' s of
        None \<Rightarrow> None
      | Some i \<Rightarrow>
          (case find_sub ''*/'' (drop (i + 3) s) of
             None \<Rightarrow> None
           | Some k \<Rightarrow> Some (take (k + 5) (drop i s), take k (drop (i + 3) s))))"

definition extract_docstring :: "string \<Rightarrow> nat \<Rightarrow> string" where
  \<comment> \<open>\<open>_extract_docstring(content, pos)\<close>; \<open>pos\<close> is the start of a match\<close>
  "extract_docstring content pos =
     (let search_area = rstrip (take pos content) in
      case jsdoc_search search_area of
        None \<Rightarrow> ''''
      | Some (g0, g1) \<Rightarrow> if endswith search_area g0 then strip g1 else '''')"

subsection \<open>extractors/markdown\_extractor.py\<close>

text \<open>
  The regular-expression engine is a parameter: \<open>finditer content\<close> is, for every
  match of the heading pattern in order, the pair of \<open>match.start()\<close> and
  \<open>match.group(2)\<close>.
\<close>

record markdown_extractor =
  max_file_size :: nat
  split_by_headings_opt :: bool
  finditer :: "string \<Rightarrow> (nat \<times> string) list"

fun sections_from :: "string \<Rightarrow> (nat \<times> string) list \<Rightarrow> (string \<times> string) list" where
  \<comment> \<open>the loop of \<open>_split_by_headings\<close>: heading and content of every section\<close>
  "sections_from content [] = []"
| "sections_from content [(p, h)] = [(strip h, drop p content)]"
| "sections_from content ((p, h) # (q, h') # rest) =
     (strip h, take (q - p) (drop p content)) # sections_from content ((q, h') # rest)"

definition split_by_headings :: "markdown_extractor \<Rightarrow> string \<Rightarrow> (string \<times> string) list" where
  "split_by_headings self content =
     (let headings = finditer self content in
      if headings = [] then [(''Document'', content)]
      else sections_from content headings)"

fun section_chunks :: "string \<Rightarrow> nat \<Rightarrow> (string \<times> string) list \<Rightarrow> chunk list" where
  \<comment> \<open>the loop over the sections; the second argument is \<open>line_count\<close>\<close>
  "section_chunks path line_count [] = []"
| "section_chunks path line_count ((heading, content) # rest) =
     (if strip content = [] then section_chunks path line_count rest
      else
        let section_lines = count_newlines content + 1;
            ls = line_count;
            le = line_count + section_lines - 1
        in \<lparr>c_file = path, c_name = basename path @ '':'' @ heading, c_type = ''section'',
            c_code = '''', c_docstring = content, full_text = content,
            line_start = ls, line_end = le\<rparr>
           # section_chunks path (le + 1) rest)"

definition markdown_extract_chunks :: "markdown_extractor \<Rightarrow> disk \<Rightarrow> string \<Rightarrow> chunk list" where
  \<comment> \<open>\<open>MarkdownExtractor.extract_chunks\<close>\<close>
  "markdown_extract_chunks self d path =
     (if \<not> is_valid_file (max_file_size self) d path then []
      else
        (case d path of
           None \<Rightarrow> []
         | Some content \<Rightarrow>
             \<lparr>c_file = path, c_name = basename path, c_type = ''document'',
              c_code = '''', c_docstring = content, full_text = content,
              line_start = 1, line_end = count_newlines content + 1\<rparr>
             # (if split_by_headings_opt self
                then section_chunks path 1 (split_by_headings self content)
                else [])))"

section \<open>Example states\<close>

definition ex_index :: "string vector_index" where
  "ex_index = init_index ''idx'' False ''l2''"

definition ex_envelope_fs :: "string filesystem" where
  \<comment> \<open>an artifact pair saved by an index that used the cosine metric\<close>
  "ex_envelope_fs =
     \<lparr>files = [''idx/n.metadata'' \<mapsto> Pickle (Envelope (Some [''a'']) (Some (Some 1)) (Some ''cosine'')),
               ''idx/n.index'' \<mapsto> NpyFile [[1]]],
      writable = (\<lambda>p. True)\<rparr>"

definition ex_vectors :: matrix where
  "ex_vectors = [[1, 0], [0, 1]]"

definition ex_cosine_numpy :: "string vector_index" where
  \<comment> \<open>two unit vectors and their two metadata entries, brute-force backend\<close>
  "ex_cosine_numpy = fst (build (init_index ''idx'' False ''cosine'') ex_vectors [''a'', ''b''])"

definition ex_cosine_faiss :: "string vector_index" where
  \<comment> \<open>the same vectors, metadata and metric, FAISS backend\<close>
  "ex_cosine_faiss = fst (build (init_index ''idx'' True ''cosine'') ex_vectors [''a'', ''b''])"

definition ex_mismatch :: "string vector_index" where
  \<comment> \<open>three vectors with one metadata entry, as \<open>build\<close> accepts them\<close>
  "ex_mismatch = fst (build (init_index ''idx'' False ''l2'') [[1], [1], [0]] [''a''])"

definition ex_fs :: "string filesystem" where
  "ex_fs = \<lparr>files = (\<lambda>p. None), writable = (\<lambda>p. True)\<rparr>"

definition ex_embedder :: embedder where
  \<comment> \<open>a provider of dimension 2 that embeds every text as \<open>[1, 0]\<close>, no cache\<close>
  "ex_embedder =
     \<lparr>embed_dim = 2, use_cache = False, batch_size = 2, max_workers = 4,
      local_model = True, md5 = (\<lambda>t. t), cache_writable = True,
      encode = (\<lambda>t. Inr [1, 0]),
      encode_batch = (\<lambda>ts. Inr (map (\<lambda>t. [1, 0]) ts))\<rparr>"

definition ex_retriever :: "string context_retriever" where
  "ex_retriever =
     \<lparr>retriever = Some \<lparr>r_vector_index = ex_cosine_numpy, r_embedder = ex_embedder, r_top_k = 2\<rparr>,
      threshold = None\<rparr>"

definition ex_render :: "string result \<Rightarrow> py_error + string" where
  "ex_render r = Inr (meta r)"

definition ex_cache :: cache where
  "ex_cache = (\<lambda>k. None)"

definition ex_failing :: embedder where
  \<comment> \<open>a provider of dimension 1 that embeds a text as its length and raises on
      every call that includes the text \<open>b\<close>; the cache is enabled\<close>
  "ex_failing =
     \<lparr>embed_dim = 1, use_cache = True, batch_size = 2, max_workers = 4,
      local_model = True, md5 = (\<lambda>t. t), cache_writable = True,
      encode = (\<lambda>t. if t = ''b'' then Inl OSError else Inr [real (length t)]),
      encode_batch = (\<lambda>ts. if ''b'' \<in> set ts then Inl OSError
                            else Inr (map (\<lambda>t. [real (length t)]) ts))\<rparr>"

definition ex_warm :: "nat \<Rightarrow> cache" where
  \<comment> \<open>every group reads a cache that holds the vector \<open>[1]\<close> for the text \<open>a\<close> only\<close>
  "ex_warm b = (\<lambda>k. if k = ''a'' then Some [1] else None)"

definition ex_stale :: "nat \<Rightarrow> cache" where
  \<comment> \<open>every group reads a cache that holds a vector of the wrong length for \<open>a\<close>\<close>
  "ex_stale b = (\<lambda>k. if k = ''a'' then Some [1, 2] else None)"


definition ex_bare_fs :: "string filesystem" where
  \<comment> \<open>an artifact pair whose envelope has no \<open>metric\<close> entry\<close>
  "ex_bare_fs =
     \<lparr>files = [''idx/n.metadata'' \<mapsto> Pickle (Envelope (Some [''a'']) (Some (Some 1)) None),
               ''idx/n.index'' \<mapsto> NpyFile [[1]]],
      writable = (\<lambda>p. True)\<rparr>"


definition ex_two_docs :: string where
  \<comment> \<open>two declarations, each with its own documentation comment\<close>
  "ex_two_docs = ''/** A */ function a() {} /** B */ function b() {}''"

definition ex_disk :: disk where
  \<comment> \<open>a disk whose only file is an empty Markdown file\<close>
  "ex_disk = (\<lambda>p. if p = ''docs/empty.md'' then Some [] else None)"

section \<open>Properties of the vector index\<close>

lemma build_empty: "build self [] md = (self, [(WARNING, ''No embeddings provided to build index'')])"
  by (simp add: build_def)

lemma build_nonempty_metadata:
  "embeddings \<noteq> [] \<Longrightarrow> metadata (fst (build self embeddings md)) = md"
  by (simp add: build_def Let_def)

lemma build_nonempty_dimension:
  "embeddings \<noteq> [] \<Longrightarrow>
   dimension (fst (build self embeddings md)) = Some (length (hd embeddings))"
  by (simp add: build_def Let_def)

lemma build_nonempty_index:
  "embeddings \<noteq> [] \<Longrightarrow> index (fst (build self embeddings md)) \<noteq> None"
  by (simp add: build_def Let_def)

lemma build_nonempty_content:
  "embeddings \<noteq> [] \<Longrightarrow>
   index (fst (build self embeddings md)) =
     Some (if use_faiss self then
             (if metric self = ''cosine''
              then Faiss IndexFlatIP (length (hd embeddings)) (map normalize_L2 embeddings)
              else Faiss IndexFlatL2 (length (hd embeddings)) embeddings)
           else Numpy embeddings)"
  by (simp add: build_def Let_def)

lemma build_nonempty_rest:
  "embeddings \<noteq> [] \<Longrightarrow>
   index_dir (fst (build self embeddings md)) = index_dir self \<and>
   use_faiss (fst (build self embeddings md)) = use_faiss self \<and>
   metric (fst (build self embeddings md)) = metric self"
  by (simp add: build_def Let_def)

lemma build_nonempty_log:
  "embeddings \<noteq> [] \<Longrightarrow> fst ` set (snd (build self embeddings md)) = {INFO}"
  by (simp add: build_def Let_def)

text \<open>
  C2.  \<open>build\<close> never compares the number of vectors with the number of metadata
  entries.  With two vectors and one metadata entry it builds the index, stores the
  single entry and logs at info level only; nothing is reported to the caller.
\<close>

theorem build_mismatch_counterexample:
  "length [[1, 0], [0, 1 :: real]] \<noteq> length [''only''] \<and>
   build ex_index [[1, 0], [0, 1]] [''only''] =
     (\<lparr>index_dir = ''idx'', use_faiss = False, metric = ''l2'',
       index = Some (Numpy [[1, 0], [0, 1]]), metadata = [''only''],
       dimension = Some 2\<rparr>,
      [(INFO, ''Built numpy index'')])"
  by (simp add: build_def ex_index_def init_index_def)

text \<open>
  C2, as the code has it.  For an empty vector set \<open>build\<close> is a no-op that logs a
  warning.  For every non-empty vector set, whatever the number of metadata entries,
  it stores the metadata as given, fixes the dimension from the first vector, and
  builds the index from all the vectors as given (every row, normalised under the
  cosine metric with FAISS, unchanged otherwise): neither list is cut or padded to
  the length of the other.  The configuration is left as it was and the log is at
  info level only.
\<close>

theorem build_unchecked:
  "build self [] md = (self, [(WARNING, ''No embeddings provided to build index'')]) \<and>
   (embeddings \<noteq> [] \<longrightarrow>
      metadata (fst (build self embeddings md)) = md \<and>
      dimension (fst (build self embeddings md)) = Some (length (hd embeddings)) \<and>
      index (fst (build self embeddings md)) \<noteq> None \<and>
      index (fst (build self embeddings md)) =
        Some (if use_faiss self then
                (if metric self = ''cosine''
                 then Faiss IndexFlatIP (length (hd embeddings)) (map normalize_L2 embeddings)
                 else Faiss IndexFlatL2 (length (hd embeddings)) embeddings)
              else Numpy embeddings) \<and>
      index_dir (fst (build self embeddings md)) = index_dir self \<and>
      use_faiss (fst (build self embeddings md)) = use_faiss self \<and>
      metric (fst (build self embeddings md)) = metric self \<and>
      fst ` set (snd (build self embeddings md)) = {INFO})"
  by (simp add: build_empty build_nonempty_metadata build_nonempty_dimension
        build_nonempty_content build_nonempty_rest build_nonempty_log)

theorem build_unchecked_witness:
  "[[1, 0], [0, 1 :: real]] \<noteq> [] \<and>
   metadata (fst (build ex_index [[1, 0], [0, 1]] [''only''])) = [''only''] \<and>
   dimension (fst (build ex_index [[1, 0], [0, 1]] [''only''])) = Some 2 \<and>
   index (fst (build ex_index [[1, 0], [0, 1]] [''only''])) = Some (Numpy [[1, 0], [0, 1]])"
  using build_unchecked [of ex_index "[''only'']" "[[1, 0], [0, 1]]"]
  by (simp add: ex_index_def init_index_def)

text \<open>
  C10.  The fallback of \<open>load\<close> is the metric the instance holds when \<open>load\<close> is
  called, which is the configured one only on an instance that has not loaded
  before.  An index configured with \<open>l2\<close> loads an envelope that records \<open>cosine\<close>,
  then loads an envelope with no metric entry: both loads succeed and the metric is
  \<open>cosine\<close>, not the configured \<open>l2\<close>.
\<close>

theorem load_metric_counterexample:
  "metric ex_index = ''l2'' \<and>
   load ex_index ex_envelope_fs ''n'' =
     (True, \<lparr>index_dir = ''idx'', use_faiss = False, metric = ''cosine'',
             index = Some (Numpy [[1]]), metadata = [''a''], dimension = Some 1\<rparr>) \<and>
   files ex_bare_fs ''idx/n.metadata'' = Some (Pickle (Envelope (Some [''a'']) (Some (Some 1)) None)) \<and>
   load (snd (load ex_index ex_envelope_fs ''n'')) ex_bare_fs ''n'' =
     (True, \<lparr>index_dir = ''idx'', use_faiss = False, metric = ''cosine'',
             index = Some (Numpy [[1]]), metadata = [''a''], dimension = Some 1\<rparr>)"
  by (simp add: load_def ex_index_def init_index_def ex_envelope_fs_def ex_bare_fs_def
        index_path_def metadata_path_def path_join_def)

text \<open>
  C10, as the code has it.  After a successful \<open>load\<close> the metric of the index is
  the one recorded in the envelope; when the envelope has no metric entry it is the
  metric the instance held just before this \<open>load\<close>.
\<close>

theorem load_metric:
  assumes "load self fs name = (True, s')"
  shows "\<exists>emd edim emet.
           files fs (metadata_path self name) = Some (Pickle (Envelope emd edim emet)) \<and>
           metric s' = (case emet of Some m \<Rightarrow> m | None \<Rightarrow> metric self)"
proof -
  obtain emd edim emet where
    e: "files fs (metadata_path self name) = Some (Pickle (Envelope emd edim emet))"
    using assms
    by (auto simp: load_def Let_def
             split: if_splits option.splits artifact.splits pickled.splits)
  have "metric s' = (case emet of Some m \<Rightarrow> m | None \<Rightarrow> metric self)"
    using assms e
    by (cases emet)
       (auto simp: load_def Let_def
             split: if_splits option.splits artifact.splits index.splits)
  with e show ?thesis by blast
qed

text \<open>
  The witness: an index configured with \<open>l2\<close> loads an artifact pair whose envelope
  records \<open>cosine\<close>; the load succeeds and the metric is \<open>cosine\<close> afterwards.
\<close>

theorem load_metric_witness:
  "metric ex_index = ''l2'' \<and>
   fst (load ex_index ex_envelope_fs ''n'') = True \<and>
   metric (snd (load ex_index ex_envelope_fs ''n'')) = ''cosine''"
proof -
  define s' where "s' = snd (load ex_index ex_envelope_fs ''n'')"
  have h: "load ex_index ex_envelope_fs ''n'' = (True, s')"
    unfolding s'_def
    by (simp add: load_def ex_index_def init_index_def ex_envelope_fs_def
          index_path_def metadata_path_def path_join_def)
  from load_metric [OF h] obtain emd edim emet where
    e: "files ex_envelope_fs (metadata_path ex_index ''n'') =
          Some (Pickle (Envelope emd edim emet))"
    and m: "metric s' = (case emet of Some m \<Rightarrow> m | None \<Rightarrow> metric ex_index)"
    by blast
  have f: "files ex_envelope_fs (metadata_path ex_index ''n'') =
             Some (Pickle (Envelope (Some [''a'']) (Some (Some 1)) (Some ''cosine'')))"
    by (simp add: ex_index_def init_index_def ex_envelope_fs_def
          metadata_path_def path_join_def)
  from e f have "emet = Some ''cosine''" by simp
  with m have "metric s' = ''cosine''" by simp
  moreover have "metric ex_index = ''l2''"
    by (simp add: ex_index_def init_index_def)
  moreover from h have "fst (load ex_index ex_envelope_fs ''n'') = True"
    by simp
  ultimately show ?thesis unfolding s'_def by blast
qed

lemma norm_unit: "l2_norm [1, 0] = 1" "l2_norm [0, 1] = 1" "l2_norm [0] = 0" "l2_norm [1] = 1"
  by (simp_all add: l2_norm_def)

lemma ex_cosine_numpy_eq:
  "ex_cosine_numpy = \<lparr>index_dir = ''idx'', use_faiss = False, metric = ''cosine'',
      index = Some (Numpy [[1, 0], [0, 1]]), metadata = [''a'', ''b''], dimension = Some 2\<rparr>"
  by (simp add: ex_cosine_numpy_def ex_vectors_def build_def init_index_def)

lemma ex_cosine_faiss_eq:
  "ex_cosine_faiss = \<lparr>index_dir = ''idx'', use_faiss = True, metric = ''cosine'',
      index = Some (Faiss IndexFlatIP 2 [[1, 0], [0, 1]]), metadata = [''a'', ''b''],
      dimension = Some 2\<rparr>"
  by (simp add: ex_cosine_faiss_def ex_vectors_def build_def init_index_def normalize_L2_def norm_unit)

lemma ex_mismatch_eq:
  "ex_mismatch = \<lparr>index_dir = ''idx'', use_faiss = False, metric = ''l2'',
      index = Some (Numpy [[1], [1], [0]]), metadata = [''a''], dimension = Some 1\<rparr>"
  by (simp add: ex_mismatch_def build_def init_index_def)

text \<open>
  C9.  The brute-force path reads \<open>self.metadata[idx]\<close> without the test the FAISS
  path makes, and its slice \<open>[-k:]\<close> is the whole array for \<open>k = 0\<close>.  With two
  vectors and two metadata entries, \<open>top_k = 0\<close> returns two results, more than
  \<open>min(top_k, len(metadata)) = 0\<close>; with three vectors and one metadata entry the
  search raises IndexError.
\<close>

theorem search_unguarded:
  "search B ex_cosine_numpy [1, 0] 0 =
     Inr [\<lparr>meta = ''a'', score = 1, distance = 0\<rparr>, \<lparr>meta = ''b'', score = 0, distance = 1\<rparr>] \<and>
   search B ex_mismatch [0] 5 = Inl IndexError"
  by (simp add: ex_cosine_numpy_eq ex_mismatch_eq search_def cosine_similarity_def
        normalize_L2_def norm_unit dot_def argsort_def slice_from_def slice_to_def
        broadcast_sub_def)

text \<open>
  C7.  The same two unit vectors, metadata, cosine metric, query and \<open>top_k = 1\<close>:
  the FAISS path reports distance 1 for the best match (the raw inner product), the
  brute-force path reports distance 0 (one minus the similarity).
\<close>

theorem backends_differ_counterexample:
  "search flat_search ex_cosine_faiss [1, 0] 1 = Inr [\<lparr>meta = ''a'', score = 1, distance = 1\<rparr>] \<and>
   search flat_search ex_cosine_numpy [1, 0] 1 = Inr [\<lparr>meta = ''a'', score = 1, distance = 0\<rparr>]"
  by (simp add: ex_cosine_numpy_eq ex_cosine_faiss_eq search_def cosine_similarity_def
        normalize_L2_def norm_unit dot_def argsort_def slice_from_def flat_search_def
        py_getitem_def)

lemma faiss_collect_sound:
  "faiss_collect md ts = Inr rs \<Longrightarrow>
   \<forall>r \<in> set rs. \<exists>t \<in> set ts. score r = fst t \<and> distance r = fst (snd t)"
proof (induction ts arbitrary: rs)
  case Nil
  then show ?case by simp
next
  case (Cons t ts)
  obtain s d i where t: "t = (s, d, i)" by (cases t) auto
  show ?case
    using Cons.prems Cons.IH unfolding t
    by (auto split: if_splits sum.splits)
qed

lemma numpy_collect_sound:
  "numpy_collect md f idxs = Inr rs \<Longrightarrow>
   \<forall>r \<in> set rs. \<exists>i \<in> set idxs. score r = fst (f i) \<and> distance r = snd (f i)"
proof (induction idxs arbitrary: rs)
  case Nil
  then show ?case by simp
next
  case (Cons i idxs)
  show ?case
    using Cons.prems Cons.IH
    by (auto split: if_splits sum.splits)
qed

lemma numpy_collect_length:
  "numpy_collect md f idxs = Inr rs \<Longrightarrow> length rs = length idxs"
  by (induction idxs arbitrary: rs) (auto split: if_splits sum.splits)

lemma faiss_collect_length:
  "faiss_collect md ts = Inr rs \<Longrightarrow> length rs \<le> length ts"
proof (induction ts arbitrary: rs)
  case Nil
  then show ?case by simp
next
  case (Cons t ts)
  obtain s d i where t: "t = (s, d, i)" by (cases t) auto
  show ?case
    using Cons.prems Cons.IH unfolding t
    by (fastforce split: if_splits sum.splits)
qed


lemma paths_differ: "index_path self name \<noteq> metadata_path self name"
  by (simp add: index_path_def metadata_path_def path_join_def)

lemma save_files:
  assumes "built self" "index self = Some ix"
    and "writable fs (metadata_path self name)"
    and "writable fs (index_path self name)"
  shows "files (fst (save self fs name)) =
           (files fs)(metadata_path self name \<mapsto>
                Pickle (Envelope (Some (metadata self)) (Some (dimension self)) (Some (metric self))),
              index_path self name \<mapsto> index_artifact ix)"
  using assms
  by (cases ix) (simp_all add: built_def save_def write_file_def Let_def index_artifact_def)

lemma load_files:
  assumes "files fs (metadata_path self name) = Some (Pickle (Envelope (Some md) (Some dv) (Some m)))"
    and "files fs (index_path self name) = Some (index_artifact ix)"
    and "case ix of Faiss k d X \<Rightarrow> use_faiss self | Numpy X \<Rightarrow> \<not> use_faiss self"
  shows "load self fs name =
           (True, self\<lparr>metadata := md, dimension := dv, metric := m, index := Some ix\<rparr>)"
  using assms
  by (cases ix) (simp_all add: load_def Let_def index_artifact_def)

lemma save_load_state:
  assumes "built self"
    and "writable fs (metadata_path self name)"
    and "writable fs (index_path self name)"
  shows "load (init_index (index_dir self) (use_faiss self) m0) (fst (save self fs name)) name
           = (True, self)"
proof -
  let ?fresh = "init_index (index_dir self) (use_faiss self) m0 :: 'a vector_index"
  from assms(1) obtain ix where ix: "index self = Some ix"
    by (auto simp: built_def split: option.splits)
  have kind: "case ix of Faiss k d X \<Rightarrow> use_faiss ?fresh | Numpy X \<Rightarrow> \<not> use_faiss ?fresh"
    using assms(1) ix by (cases ix) (simp_all add: built_def init_index_def)
  have ip: "index_path ?fresh name = index_path self name"
    by (simp add: index_path_def init_index_def)
  have mp: "metadata_path ?fresh name = metadata_path self name"
    by (simp add: metadata_path_def init_index_def)
  have f: "files (fst (save self fs name)) =
           (files fs)(metadata_path self name \<mapsto>
                Pickle (Envelope (Some (metadata self)) (Some (dimension self)) (Some (metric self))),
              index_path self name \<mapsto> index_artifact ix)"
    by (rule save_files [OF assms(1) ix assms(2) assms(3)])
  have f1: "files (fst (save self fs name)) (metadata_path ?fresh name) =
              Some (Pickle (Envelope (Some (metadata self)) (Some (dimension self)) (Some (metric self))))"
    unfolding mp f using paths_differ [of self name] by simp
  have f2: "files (fst (save self fs name)) (index_path ?fresh name) = Some (index_artifact ix)"
    unfolding ip f by simp
  have "load ?fresh (fst (save self fs name)) name =
          (True, ?fresh\<lparr>metadata := metadata self, dimension := dimension self,
                         metric := metric self, index := Some ix\<rparr>)"
    by (rule load_files [OF f1 f2 kind])
  moreover have "?fresh\<lparr>metadata := metadata self, dimension := dimension self,
                         metric := metric self, index := Some ix\<rparr> = self"
    using ix by (cases self) (simp add: init_index_def)
  ultimately show ?thesis by simp
qed


text \<open>
  C3.  Let an index be built (an index object of the kind the instance uses is
  present) and let both artifact paths be writable.  Then \<open>save(name)\<close> followed by
  \<open>load(name)\<close> on a fresh instance with the same index directory and backend
  succeeds, and the loaded instance has the same metadata (order and content), the
  same dimension and metric, and gives the same search result for every query
  vector and \<open>top_k\<close>.  Serialisation is lossless in the model, so the results are
  equal, not only close.
\<close>

theorem save_load_roundtrip:
  assumes "built self"
    and "writable fs (metadata_path self name)"
    and "writable fs (index_path self name)"
  shows "fst (load (init_index (index_dir self) (use_faiss self) m0) (fst (save self fs name)) name) = True \<and>
         metadata (snd (load (init_index (index_dir self) (use_faiss self) m0) (fst (save self fs name)) name)) = metadata self \<and>
         dimension (snd (load (init_index (index_dir self) (use_faiss self) m0) (fst (save self fs name)) name)) = dimension self \<and>
         metric (snd (load (init_index (index_dir self) (use_faiss self) m0) (fst (save self fs name)) name)) = metric self \<and>
         search B (snd (load (init_index (index_dir self) (use_faiss self) m0) (fst (save self fs name)) name)) q k
           = search B self q k"
  by (simp add: save_load_state [OF assms])

lemma ex_cosine_numpy_built: "built ex_cosine_numpy"
  by (simp add: ex_cosine_numpy_eq built_def)

theorem save_load_roundtrip_witness:
  "built ex_cosine_numpy \<and>
   writable ex_fs (metadata_path ex_cosine_numpy ''n'') \<and>
   writable ex_fs (index_path ex_cosine_numpy ''n'') \<and>
   fst (load (init_index ''idx'' False ''cosine'') (fst (save ex_cosine_numpy ex_fs ''n'')) ''n'') = True \<and>
   metadata (snd (load (init_index ''idx'' False ''cosine'') (fst (save ex_cosine_numpy ex_fs ''n'')) ''n''))
     = [''a'', ''b''] \<and>
   search flat_search (snd (load (init_index ''idx'' False ''cosine'') (fst (save ex_cosine_numpy ex_fs ''n'')) ''n'')) [1, 0] 1
     = Inr [\<lparr>meta = ''a'', score = 1, distance = 0\<rparr>]"
proof -
  have w1: "writable ex_fs (metadata_path ex_cosine_numpy ''n'')"
    and w2: "writable ex_fs (index_path ex_cosine_numpy ''n'')"
    by (simp_all add: ex_fs_def)
  have d: "index_dir ex_cosine_numpy = ''idx''" "use_faiss ex_cosine_numpy = False"
    "metadata ex_cosine_numpy = [''a'', ''b'']"
    by (simp_all add: ex_cosine_numpy_eq)
  have s: "search flat_search ex_cosine_numpy [1, 0] 1 = Inr [\<lparr>meta = ''a'', score = 1, distance = 0\<rparr>]"
    by (simp add: ex_cosine_numpy_eq search_def cosine_similarity_def
        normalize_L2_def norm_unit dot_def argsort_def slice_from_def)
  from save_load_roundtrip [OF ex_cosine_numpy_built w1 w2, of "''cosine''" flat_search "[1, 0]" 1]
  show ?thesis
    unfolding d s using ex_cosine_numpy_built w1 w2 by blast
qed

text \<open>
  C7, as the code has it.  For every backend and every result of a search: under
  the cosine metric the FAISS path reports \<open>distance = score\<close> and the brute-force
  path \<open>distance = 1 - score\<close>; under l2 the FAISS path normalises the score
  against the largest distance among the returned hits, and the brute-force path
  against the largest distance among all stored vectors.
\<close>

theorem backend_scores:
  assumes "search B self q top_k = Inr rs" and "r \<in> set rs"
  shows "(metric self = ''cosine'' \<longrightarrow>
            (if use_faiss self then distance r = score r else distance r = 1 - score r)) \<and>
         (metric self \<noteq> ''cosine'' \<longrightarrow>
            (if use_faiss self then
               (\<exists>ix hits m. index self = Some ix \<and>
                  B ix q (min top_k (int (length (metadata self)))) = Inr hits \<and>
                  np_max (map fst hits) = Inr m \<and>
                  score r = 1 - distance r / (m + eps))
             else
               (\<exists>X ds m. index self = Some (Numpy X) \<and>
                  l2_distances X q = Inr ds \<and> np_max ds = Inr m \<and>
                  score r = 1 - distance r / (m + eps))))"
proof -
  from assms obtain ix where ix: "index self = Some ix"
    by (cases "index self") (auto simp: search_def)
  show ?thesis
  proof (cases "use_faiss self")
    case True
    show ?thesis
    proof (cases "metric self = ''cosine''")
      case c: True
      from assms(1) obtain hits where
        h: "faiss_collect (metadata self) (map (\<lambda>(d, i). (d, d, i)) hits) = Inr rs"
        using ix True c by (auto simp: search_def Let_def split: sum.splits)
      from faiss_collect_sound [OF h] assms(2) have "distance r = score r"
        by auto
      with True c show ?thesis by simp
    next
      case c: False
      from assms(1) obtain hits m where
        b: "B ix q (min top_k (int (length (metadata self)))) = Inr hits"
        and m: "np_max (map fst hits) = Inr m"
        and h: "faiss_collect (metadata self)
                  (map (\<lambda>(d, i). (1 - d / (m + eps), d, i)) hits) = Inr rs"
        using ix True c by (auto simp: search_def Let_def split: sum.splits)
      from faiss_collect_sound [OF h] assms(2) have "score r = 1 - distance r / (m + eps)"
        by auto
      with True c ix b m show ?thesis by auto
    qed
  next
    case False
    from assms(1) obtain X where X: "ix = Numpy X"
      using ix False by (cases ix) (auto simp: search_def Let_def)
    show ?thesis
    proof (cases "metric self = ''cosine''")
      case c: True
      from assms(1) obtain sim idxs where
        h: "numpy_collect (metadata self) (\<lambda>idx. (sim ! idx, 1 - sim ! idx)) idxs = Inr rs"
        using ix X False c by (auto simp: search_def Let_def split: sum.splits)
      from numpy_collect_sound [OF h] assms(2) have "distance r = 1 - score r"
        by auto
      with False c show ?thesis by simp
    next
      case c: False
      from assms obtain ds m idxs where
        d: "l2_distances X q = Inr ds" and m: "np_max ds = Inr m"
        and h: "numpy_collect (metadata self)
                  (\<lambda>idx. (1 - ds ! idx / (m + eps), ds ! idx)) idxs = Inr rs"
        using ix X False c
        by (auto simp: search_def Let_def split: sum.splits if_splits)
      from numpy_collect_sound [OF h] assms(2) have "score r = 1 - distance r / (m + eps)"
        by auto
      with False c ix X d m show ?thesis by auto
    qed
  qed
qed

theorem backend_scores_witness:
  "search flat_search ex_cosine_numpy [1, 0] 1 = Inr [\<lparr>meta = ''a'', score = 1, distance = 0\<rparr>] \<and>
   \<lparr>meta = ''a'', score = 1, distance = 0\<rparr> \<in> set [\<lparr>meta = ''a'', score = 1, distance = 0\<rparr>] \<and>
   metric ex_cosine_numpy = ''cosine'' \<and> \<not> use_faiss ex_cosine_numpy \<and>
   distance \<lparr>meta = ''a'', score = 1, distance = 0 :: real\<rparr>
     = 1 - score \<lparr>meta = ''a'', score = 1, distance = 0 :: real\<rparr>"
proof -
  have s: "search flat_search ex_cosine_numpy [1, 0] 1 = Inr [\<lparr>meta = ''a'', score = 1, distance = 0\<rparr>]"
    by (simp add: ex_cosine_numpy_eq search_def cosine_similarity_def
        normalize_L2_def norm_unit dot_def argsort_def slice_from_def)
  have r: "\<lparr>meta = ''a'', score = 1, distance = 0\<rparr> \<in> set [\<lparr>meta = ''a'', score = 1 :: real, distance = 0 :: real\<rparr>]"
    by simp
  have c: "metric ex_cosine_numpy = ''cosine''" "\<not> use_faiss ex_cosine_numpy"
    by (simp_all add: ex_cosine_numpy_eq)
  from backend_scores [OF s r] c s r show ?thesis
    by simp
qed

section \<open>Properties of the retriever\<close>

lemma format_all_total:
  "\<forall>r \<in> set rs. render r = Inr (fmt r) \<Longrightarrow> format_all render rs = Inr (map fmt rs)"
  by (induction rs) simp_all

text \<open>
  C4. \<open>query\<close> formats the results of \<open>raw_query\<close>. When a threshold is in effect
  (the argument, or else the configured one), exactly the raw results with a score of at
  least the threshold are kept, in their raw order, so no returned result scores below it.
  When the argument is absent and none is configured, every raw result is formatted: the
  same number of results in the same order.
\<close>
theorem query_threshold:
  assumes "retriever self = Some R"
    and "raw_query B self c q None = Inr (raw, c')"
    and "\<forall>r \<in> set raw. render r = Inr (fmt r)"
  shows "(\<forall>t. (case threshold_arg of None \<Rightarrow> threshold self | Some t \<Rightarrow> Some t) = Some t \<longrightarrow>
            query B render self c q threshold_arg
              = Inr (map fmt (filter (\<lambda>r. t \<le> score r) raw), c') \<and>
            (\<forall>r \<in> set (filter (\<lambda>r. t \<le> score r) raw). \<not> score r < t)) \<and>
         ((case threshold_arg of None \<Rightarrow> threshold self | Some t \<Rightarrow> Some t) = None \<longrightarrow>
            query B render self c q threshold_arg = Inr (map fmt raw, c') \<and>
            length (map fmt raw) = length raw)"
proof (intro conjI allI impI)
  fix t
  assume t: "(case threshold_arg of None \<Rightarrow> threshold self | Some t \<Rightarrow> Some t) = Some t"
  have "\<forall>r \<in> set (filter (\<lambda>r. t \<le> score r) raw). render r = Inr (fmt r)"
    using assms(3) by simp
  then have "format_all render (filter (\<lambda>r. t \<le> score r) raw)
               = Inr (map fmt (filter (\<lambda>r. t \<le> score r) raw))"
    by (rule format_all_total)
  then show "query B render self c q threshold_arg
               = Inr (map fmt (filter (\<lambda>r. t \<le> score r) raw), c')"
    using assms(1,2) t by (simp add: query_def)
  show "\<forall>r \<in> set (filter (\<lambda>r. t \<le> score r) raw). \<not> score r < t"
    by auto
next
  assume n: "(case threshold_arg of None \<Rightarrow> threshold self | Some t \<Rightarrow> Some t) = None"
  have "format_all render raw = Inr (map fmt raw)"
    using assms(3) by (rule format_all_total)
  then show "query B render self c q threshold_arg = Inr (map fmt raw, c')"
    using assms(1,2) n by (simp add: query_def)
  show "length (map fmt raw) = length raw" by simp
qed

lemma ex_raw_query:
  "raw_query flat_search ex_retriever ex_cache ''q'' None =
     Inr ([\<lparr>meta = ''a'', score = 1, distance = 0\<rparr>, \<lparr>meta = ''b'', score = 0, distance = 1\<rparr>],
          ex_cache)"
  by (simp add: raw_query_def raw_search_def ex_retriever_def ex_embedder_def embed_def
        ex_cosine_numpy_eq search_def cosine_similarity_def
        normalize_L2_def norm_unit dot_def argsort_def slice_from_def)

theorem query_threshold_witness:
  "retriever ex_retriever \<noteq> None \<and>
   query flat_search ex_render ex_retriever ex_cache ''q'' (Some (1 / 2)) = Inr ([''a''], ex_cache) \<and>
   query flat_search ex_render ex_retriever ex_cache ''q'' None = Inr ([''a'', ''b''], ex_cache)"
proof -
  have r: "retriever ex_retriever =
             Some \<lparr>r_vector_index = ex_cosine_numpy, r_embedder = ex_embedder, r_top_k = 2\<rparr>"
    by (simp add: ex_retriever_def)
  have f: "\<forall>r \<in> set [\<lparr>meta = ''a'', score = 1, distance = 0\<rparr>,
                       \<lparr>meta = ''b'', score = 0 :: real, distance = 1 :: real\<rparr>].
             ex_render r = Inr (meta r)"
    by (simp add: ex_render_def)
  have n: "threshold ex_retriever = None"
    by (simp add: ex_retriever_def)
  from query_threshold [OF r ex_raw_query f, of "Some (1 / 2)", THEN conjunct1,
      THEN spec [where x = "1 / 2"]]
  have a: "query flat_search ex_render ex_retriever ex_cache ''q'' (Some (1 / 2)) = Inr ([''a''], ex_cache)"
    by simp
  from query_threshold [OF r ex_raw_query f, of None] n
  have b: "query flat_search ex_render ex_retriever ex_cache ''q'' None = Inr ([''a'', ''b''], ex_cache)"
    by simp
  from a b r show ?thesis by simp
qed

section \<open>Properties of the embedder\<close>

lemma collect_eq:
  "length slots = n \<Longrightarrow> set order \<subseteq> {0..<n} \<Longrightarrow>
   collect slot order slots
     = map (\<lambda>b. if b \<in> set order then Some (slot b) else slots ! b) [0..<n]"
proof (induction order arbitrary: slots)
  case Nil
  then have "map ((!) slots) [0..<n] = slots" by (metis map_nth)
  then show ?case by simp
next
  case (Cons b order)
  have "collect slot (b # order) slots = collect slot order (slots[b := Some (slot b)])"
    by simp
  also have "\<dots> = map (\<lambda>k. if k \<in> set order then Some (slot k)
                              else slots[b := Some (slot b)] ! k) [0..<n]"
    using Cons by simp
  also have "\<dots> = map (\<lambda>k. if k \<in> set (b # order) then Some (slot k) else slots ! k) [0..<n]"
    using Cons.prems by (auto simp: nth_list_update)
  finally show ?case .
qed

lemma collect_all:
  assumes "set order = {0..<n}"
  shows "collect slot order (replicate n None) = map (\<lambda>b. Some (slot b)) [0..<n]"
proof -
  have "collect slot order (replicate n None)
          = map (\<lambda>b. if b \<in> set order then Some (slot b) else replicate n None ! b) [0..<n]"
    using assms by (intro collect_eq) simp_all
  also have "\<dots> = map (\<lambda>b. Some (slot b)) [0..<n]"
    using assms by simp
  finally show ?thesis .
qed

lemma vstack_all:
  "0 < n \<Longrightarrow> vstack (map (\<lambda>b. Some (slot b)) [0..<n]) = Inr (concat (map slot [0..<n]))"
  by (auto simp: vstack_def comp_def)

lemma py_range_stop: "s = 0 \<or> n \<le> i \<Longrightarrow> py_range i n s = []"
  by (subst py_range.simps) simp

lemma py_range_step: "0 < s \<Longrightarrow> i < n \<Longrightarrow> py_range i n s = i # py_range (i + s) n s"
  by (subst py_range.simps) simp

lemma py_range_nth:
  "0 < s \<Longrightarrow> k < length (py_range i n s) \<Longrightarrow> py_range i n s ! k = i + k * s"
proof (induction i n s arbitrary: k rule: py_range.induct)
  case (1 i n s)
  show ?case
  proof (cases "n \<le> i")
    case True
    with 1 show ?thesis by (simp add: py_range_stop)
  next
    case False
    then have st: "py_range i n s = i # py_range (i + s) n s"
      using 1 by (simp add: py_range_step)
    show ?thesis
    proof (cases k)
      case 0
      with st show ?thesis by simp
    next
      case (Suc k')
      with 1 st have "k' < length (py_range (i + s) n s)" by simp
      with 1 False have "py_range (i + s) n s ! k' = i + s + k' * s" by simp
      with st Suc show ?thesis by simp
    qed
  qed
qed

lemma py_range_length:
  "0 < s \<Longrightarrow> k < length (py_range i n s) \<longleftrightarrow> i + k * s < n"
proof (induction i n s arbitrary: k rule: py_range.induct)
  case (1 i n s)
  show ?case
  proof (cases "n \<le> i")
    case True
    then show ?thesis by (simp add: py_range_stop)
  next
    case False
    then have st: "py_range i n s = i # py_range (i + s) n s"
      using 1 by (simp add: py_range_step)
    show ?thesis
    proof (cases k)
      case 0
      with st False show ?thesis by simp
    next
      case (Suc k')
      from 1 False have "k' < length (py_range (i + s) n s) \<longleftrightarrow> i + s + k' * s < n"
        by simp
      with st Suc show ?thesis by (simp add: add.assoc)
    qed
  qed
qed

lemma batches_of_nth:
  assumes "0 < bs" "b * bs < length texts"
  shows "b < length (batches_of bs texts)"
    and "batches_of bs texts ! b = take bs (drop (b * bs) texts)"
proof -
  from assms show b: "b < length (batches_of bs texts)"
    using py_range_length [of bs b 0 "length texts"] by (simp add: batches_of_def)
  then show "batches_of bs texts ! b = take bs (drop (b * bs) texts)"
    using assms py_range_nth [of bs b 0 "length texts"] by (simp add: batches_of_def)
qed

lemma batches_of_bound:
  assumes "0 < bs" "b < length (batches_of bs texts)"
  shows "b * bs < length texts"
  using assms py_range_length [of bs b 0 "length texts"] by (simp add: batches_of_def)

lemma batches_of_nonempty:
  "0 < bs \<Longrightarrow> texts \<noteq> [] \<Longrightarrow> 0 < length (batches_of bs texts)"
  using batches_of_nth(1) [of bs 0 texts] by simp

lemma concat_nth_uniform:
  "\<forall>k < b. length (yss ! k) = s \<Longrightarrow> b < length yss \<Longrightarrow> j < length (yss ! b) \<Longrightarrow>
   concat yss ! (b * s + j) = yss ! b ! j"
proof (induction b arbitrary: yss)
  case 0
  then obtain ys rest where "yss = ys # rest" by (cases yss) auto
  with 0 show ?case by (simp add: nth_append)
next
  case (Suc b)
  then obtain ys rest where y: "yss = ys # rest" by (cases yss) auto
  with Suc.prems have l: "length ys = s" by auto
  from Suc.prems y have "\<forall>k < b. length (rest ! k) = s" by auto
  moreover from Suc.prems y have "b < length rest" "j < length (rest ! b)" by auto
  ultimately have "concat rest ! (b * s + j) = rest ! b ! j" by (rule Suc.IH)
  with y l show ?case by (simp add: nth_append add.assoc)
qed



lemma cached_rows_length:
  "cached_rows self c ts = Inr cs \<Longrightarrow> length cs = length ts"
  by (induction ts arbitrary: cs) (auto split: option.splits sum.splits if_splits)

lemma merge_rows_length: "length (merge_rows d cs ms) = length cs"
  by (induction d cs ms rule: merge_rows.induct) simp_all

lemma merge_rows_nil:
  "merge_rows d cs [] = map (\<lambda>c. case c of Some r \<Rightarrow> r | None \<Rightarrow> zeros d) cs"
proof (induction cs)
  case Nil
  show ?case by simp
next
  case (Cons c cs)
  then show ?case by (cases c) simp_all
qed

lemma process_batch_length:
  assumes "process_batch self c ts = Inr r"
  shows "length (fst r) = length ts"
proof -
  from assms obtain cs where cs: "cached_rows self c ts = Inr cs"
    by (auto simp: process_batch_def split: sum.splits)
  then have l: "length cs = length ts" by (rule cached_rows_length)
  from assms cs obtain ms where "fst r = merge_rows (embed_dim self) cs ms"
    by (auto simp: process_batch_def Let_def split: sum.splits if_splits)
  with l show ?thesis by (simp add: merge_rows_length)
qed

lemma process_batch_provider_failure:
  assumes "cached_rows self c ts = Inr cs"
    and "batch_embeddings self (misses ts cs) = Inl e"
  shows "process_batch self c ts = Inr (merge_rows (embed_dim self) cs [], c)"
  using assms by (simp add: process_batch_def Let_def)

lemma slot_of_length:
  "length (slot_of self views batches b) = length (batches ! b)"
  by (auto simp: slot_of_def process_batch_length split: sum.splits)

lemma batch_embed_eq:
  assumes "texts \<noteq> []" and "bs = nat (batch_size_or self arg)" and "0 < bs"
    and "0 < max_workers self"
    and "set order = {0..<length (batches_of bs texts)}"
  shows "batch_embed self views order texts arg =
           Inr (concat (map (slot_of self views (batches_of bs texts))
                          [0..<length (batches_of bs texts)]))"
proof -
  from assms(2,3) have p: "0 < batch_size_or self arg" by simp
  have n: "0 < length (batches_of bs texts)"
    using assms(1,3) by (rule batches_of_nonempty [rotated])
  have "batch_embed self views order texts arg =
          vstack (collect (slot_of self views (batches_of bs texts)) order
                    (replicate (length (batches_of bs texts)) None))"
    using assms(1,2,4) p by (simp add: batch_embed_def Let_def)
  also have "\<dots> = vstack (map (\<lambda>b. Some (slot_of self views (batches_of bs texts) b))
                          [0..<length (batches_of bs texts)])"
    using assms(5) by (simp add: collect_all)
  also have "\<dots> = Inr (concat (map (slot_of self views (batches_of bs texts))
                                [0..<length (batches_of bs texts)]))"
    using n by (rule vstack_all)
  finally show ?thesis .
qed

lemma batches_of_full:
  assumes "0 < bs" and "b * bs + j < length texts" and "j < bs"
  shows "b < length (batches_of bs texts)"
    and "j < length (batches_of bs texts ! b)"
    and "batches_of bs texts ! b ! j = texts ! (b * bs + j)"
    and "\<forall>k < b. length (batches_of bs texts ! k) = bs"
proof -
  from assms have lt: "b * bs < length texts" by simp
  with assms(1) show "b < length (batches_of bs texts)" by (rule batches_of_nth(1))
  have e: "batches_of bs texts ! b = take bs (drop (b * bs) texts)"
    using assms(1) lt by (rule batches_of_nth(2))
  from assms show "j < length (batches_of bs texts ! b)" by (simp add: e)
  from assms show "batches_of bs texts ! b ! j = texts ! (b * bs + j)" by (simp add: e)
  show "\<forall>k < b. length (batches_of bs texts ! k) = bs"
  proof (intro allI impI)
    fix k assume k: "k < b"
    then have "Suc k \<le> b" by simp
    then have "Suc k * bs \<le> b * bs" by (rule mult_le_mono1)
    with lt have le: "k * bs + bs \<le> length texts" by simp
    with assms(1) have "k * bs < length texts" by simp
    with assms(1) have "batches_of bs texts ! k = take bs (drop (k * bs) texts)"
      by (rule batches_of_nth(2))
    with le show "length (batches_of bs texts ! k) = bs" by simp
  qed
qed

lemma slots_row:
  assumes "0 < bs" and "b * bs + j < length texts" and "j < bs"
    and that: "\<And>k. length (slot k) = length (batches_of bs texts ! k)"
  shows "concat (map slot [0..<length (batches_of bs texts)]) ! (b * bs + j) = slot b ! j"
proof -
  let ?yss = "map slot [0..<length (batches_of bs texts)]"
  note f = batches_of_full [OF assms(1,2,3)]
  have "\<forall>k < b. length (?yss ! k) = bs"
    using f(1,4) that by simp
  moreover have "b < length ?yss" using f(1) by simp
  moreover have "j < length (?yss ! b)" using f(1,2) that by simp
  ultimately have "concat ?yss ! (b * bs + j) = ?yss ! b ! j"
    by (rule concat_nth_uniform)
  with f(1) show ?thesis by simp
qed


lemma cached_rows_nth:
  "cached_rows self c ts = Inr cs \<Longrightarrow> j < length ts \<Longrightarrow>
   ((if use_cache self then get_from_cache self c (ts ! j) else None) = None \<longrightarrow> cs ! j = None) \<and>
   (\<forall>v. (if use_cache self then get_from_cache self c (ts ! j) else None) = Some v \<longrightarrow>
        (\<exists>r. set_row (embed_dim self) v = Inr r \<and> cs ! j = Some r))"
proof (induction ts arbitrary: cs j)
  case Nil
  then show ?case by simp
next
  case (Cons t ts)
  from Cons.prems(1) obtain x rest where
    cs: "cs = x # rest" and rest: "cached_rows self c ts = Inr rest"
    by (auto split: option.splits sum.splits)
  show ?case
  proof (cases j)
    case 0
    with Cons.prems(1) cs show ?thesis
      by (auto split: option.splits sum.splits)
  next
    case (Suc j')
    with Cons.prems(2) have "j' < length ts" by simp
    with rest have
      "((if use_cache self then get_from_cache self c (ts ! j') else None) = None \<longrightarrow> rest ! j' = None) \<and>
       (\<forall>v. (if use_cache self then get_from_cache self c (ts ! j') else None) = Some v \<longrightarrow>
            (\<exists>r. set_row (embed_dim self) v = Inr r \<and> rest ! j' = Some r))"
      by (rule Cons.IH)
    with cs Suc show ?thesis by simp
  qed
qed





lemma embed_provider_failure:
  "encode self text = Inl e \<Longrightarrow> (use_cache self \<longrightarrow> get_from_cache self c text = None) \<Longrightarrow>
   embed self c text = (zeros (embed_dim self), c)"
  by (simp add: embed_def)

lemma group_row:
  assumes "0 < bs" and "b * bs + j < length texts" and "j < bs"
  shows "concat (map (slot_of self views (batches_of bs texts))
                   [0..<length (batches_of bs texts)]) ! (b * bs + j)
           = slot_of self views (batches_of bs texts) b ! j"
  using assms slot_of_length by (rule slots_row)

lemma slot_provider_failure:
  assumes "cached_rows self (views b) (batches ! b) = Inr cs"
    and "batch_embeddings self (misses (batches ! b) cs) = Inl e"
    and "j < length (batches ! b)"
  shows "((if use_cache self then get_from_cache self (views b) (batches ! b ! j) else None) = None \<longrightarrow>
            slot_of self views batches b ! j = zeros (embed_dim self)) \<and>
         (\<forall>v. (if use_cache self then get_from_cache self (views b) (batches ! b ! j) else None) = Some v \<longrightarrow>
            set_row (embed_dim self) v = Inr (slot_of self views batches b ! j))"
proof -
  have p: "process_batch self (views b) (batches ! b)
             = Inr (merge_rows (embed_dim self) cs [], views b)"
    using assms(1,2) by (rule process_batch_provider_failure)
  have l: "length cs = length (batches ! b)"
    using assms(1) by (rule cached_rows_length)
  from p l assms(3) have s: "slot_of self views batches b ! j
             = (case cs ! j of Some r \<Rightarrow> r | None \<Rightarrow> zeros (embed_dim self))"
    by (simp add: slot_of_def merge_rows_nil)
  note c = cached_rows_nth [OF assms(1,3)]
  show ?thesis
  proof (intro conjI impI allI)
    assume "(if use_cache self then get_from_cache self (views b) (batches ! b ! j) else None) = None"
    with c have "cs ! j = None" by blast
    with s show "slot_of self views batches b ! j = zeros (embed_dim self)" by simp
  next
    fix v
    assume "(if use_cache self then get_from_cache self (views b) (batches ! b ! j) else None) = Some v"
    with c obtain r where "set_row (embed_dim self) v = Inr r" "cs ! j = Some r" by blast
    with s show "set_row (embed_dim self) v = Inr (slot_of self views batches b ! j)" by simp
  qed
qed

lemma slot_raised:
  "process_batch self (views b) (batches ! b) = Inl e \<Longrightarrow> j < length (batches ! b) \<Longrightarrow>
   slot_of self views batches b ! j = zeros (embed_dim self)"
  by (simp add: slot_of_def)

lemma slot_returned:
  "process_batch self (views b) (batches ! b) = Inr r \<Longrightarrow>
   slot_of self views batches b = fst r"
  by (simp add: slot_of_def)

lemma ex_batches3:
  "batches_of 2 [''a'', ''b'', ''cc''] = [[''a'', ''b''], [''cc'']]"
  by (simp add: batches_of_def py_range_step py_range_stop)

lemma ex_failing_calls:
  "batch_embeddings ex_failing [''b''] = Inl OSError"
  "batch_embeddings ex_failing [''cc''] = Inr [[2]]"
  "encode ex_failing ''b'' = Inl OSError"
  by (simp_all add: batch_embeddings_def ex_failing_def)

lemma ex_warm_rows:
  "cached_rows ex_failing (ex_warm b) [''a'', ''b''] = Inr [Some [1], None]"
  "cached_rows ex_failing (ex_warm b) [''cc''] = Inr [None]"
  by (simp_all add: ex_failing_def ex_warm_def get_from_cache_def set_row_def)

lemma ex_stale_rows:
  "cached_rows ex_failing (ex_stale b) [''a'', ''b''] = Inl ValueError"
  "cached_rows ex_failing (ex_stale b) [''cc''] = Inr [None]"
  by (simp_all add: ex_failing_def ex_stale_def get_from_cache_def set_row_def)

lemma ex_failing_fields:
  "batch_size ex_failing = 2" "max_workers ex_failing = 4" "embed_dim ex_failing = 1"
  "use_cache ex_failing"
  by (simp_all add: ex_failing_def)

lemma ex_failing_store:
  "store_rows ex_failing [''cc''] [[2]] c = ([[2]], c(''cc'' \<mapsto> [2]))"
  by (simp add: ex_failing_def set_row_def save_to_cache_def)

lemma ex_failing_groups:
  "process_batch ex_failing (ex_warm b) [''a'', ''b''] = Inr ([[1], [0]], ex_warm b)"
  "process_batch ex_failing (ex_warm b) [''cc''] = Inr ([[2]], (ex_warm b)(''cc'' \<mapsto> [2]))"
  "process_batch ex_failing (ex_stale b) [''a'', ''b''] = Inl ValueError"
  "process_batch ex_failing (ex_stale b) [''cc''] = Inr ([[2]], (ex_stale b)(''cc'' \<mapsto> [2]))"
  unfolding process_batch_def ex_warm_rows ex_stale_rows
  by (simp_all add: misses_def ex_failing_calls ex_failing_fields ex_failing_store zeros_def
        del: store_rows.simps)

lemma ex_failing_slots:
  "slot_of ex_failing ex_warm [[''a'', ''b''], [''cc'']] 0 = [[1], [0]]"
  "slot_of ex_failing ex_warm [[''a'', ''b''], [''cc'']] (Suc 0) = [[2]]"
  "slot_of ex_failing ex_stale [[''a'', ''b''], [''cc'']] 0 = [[0], [0]]"
  "slot_of ex_failing ex_stale [[''a'', ''b''], [''cc'']] (Suc 0) = [[2]]"
  by (simp_all add: slot_of_def ex_failing_groups ex_failing_fields zeros_def)

text \<open>
  C5.  A provider failure inside a group is caught in \<open>_process_batch\<close>, which leaves
  zeros only in the rows it had not filled from the cache.  The provider of
  \<open>ex_failing\<close> raises on the call for the group \<open>a, b\<close>; the text \<open>a\<close> is cached with
  the vector \<open>[1]\<close>.  The rows of that group are \<open>[1]\<close> and \<open>[0]\<close>: the row of \<open>a\<close> is not
  zero-filled.
\<close>

theorem cached_row_kept_counterexample:
  "batches_of 2 [''a'', ''b'', ''cc''] = [[''a'', ''b''], [''cc'']] \<and>
   cached_rows ex_failing (ex_warm 0) [''a'', ''b''] = Inr [Some [1], None] \<and>
   batch_embeddings ex_failing (misses [''a'', ''b''] [Some [1], None]) = Inl OSError \<and>
   zeros (embed_dim ex_failing) = [0] \<and>
   batch_embed ex_failing ex_warm [1, 0] [''a'', ''b'', ''cc''] None = Inr [[1], [0], [2]]"
proof -
  have "batch_embeddings ex_failing (misses [''a'', ''b''] [Some [1], None]) = Inl OSError"
    by (simp add: misses_def ex_failing_calls)
  moreover have "zeros (embed_dim ex_failing) = [0]"
    by (simp add: ex_failing_fields zeros_def)
  moreover have "batch_embed ex_failing ex_warm [1, 0] [''a'', ''b'', ''cc''] None
                   = Inr [[1], [0], [2]]"
    by (simp add: batch_embed_def batch_size_or_def ex_failing_fields ex_batches3
          ex_failing_slots vstack_def)
  ultimately show ?thesis
    using ex_batches3 ex_warm_rows(1) [of 0] by blast
qed

text \<open>
  C5, as the code has it.  \<open>embed\<close> returns the zero vector of the declared dimension
  when the text is not served from the cache and the provider call fails, and leaves
  the cache as it was.  In \<open>batch_embed\<close>, with a positive batch size and worker count
  and every future completing once, the row of item \<open>j\<close> of group \<open>b\<close> is: when the
  provider call of the group fails, the zero vector if the item was not in the cache
  and its cached vector otherwise; when \<open>_process_batch\<close> itself raises, the zero
  vector, for every item of the group; and when \<open>_process_batch\<close> returns, the row it
  returned, whatever happened to the other groups.
\<close>

theorem provider_failure_rows:
  "(encode self text = Inl e \<and> (use_cache self \<longrightarrow> get_from_cache self c text = None) \<longrightarrow>
      embed self c text = (zeros (embed_dim self), c)) \<and>
   (texts \<noteq> [] \<and> bs = nat (batch_size_or self arg) \<and> 0 < bs \<and> 0 < max_workers self \<and>
    set order = {0..<length (batches_of bs texts)} \<longrightarrow>
      (\<exists>rows. batch_embed self views order texts arg = Inr rows \<and>
         (\<forall>b j. b * bs + j < length texts \<and> j < bs \<longrightarrow>
            (\<forall>cs e'. cached_rows self (views b) (batches_of bs texts ! b) = Inr cs \<and>
                     batch_embeddings self (misses (batches_of bs texts ! b) cs) = Inl e' \<longrightarrow>
               ((if use_cache self then get_from_cache self (views b) (texts ! (b * bs + j))
                 else None) = None \<longrightarrow>
                  rows ! (b * bs + j) = zeros (embed_dim self)) \<and>
               (\<forall>v. (if use_cache self then get_from_cache self (views b) (texts ! (b * bs + j))
                     else None) = Some v \<longrightarrow>
                  set_row (embed_dim self) v = Inr (rows ! (b * bs + j)))) \<and>
            (\<forall>e'. process_batch self (views b) (batches_of bs texts ! b) = Inl e' \<longrightarrow>
               rows ! (b * bs + j) = zeros (embed_dim self)) \<and>
            (\<forall>r. process_batch self (views b) (batches_of bs texts ! b) = Inr r \<longrightarrow>
               rows ! (b * bs + j) = fst r ! j))))"
proof (intro conjI impI)
  assume "encode self text = Inl e \<and> (use_cache self \<longrightarrow> get_from_cache self c text = None)"
  then show "embed self c text = (zeros (embed_dim self), c)"
    by (simp add: embed_provider_failure)
next
  assume cfg: "texts \<noteq> [] \<and> bs = nat (batch_size_or self arg) \<and> 0 < bs \<and> 0 < max_workers self \<and>
    set order = {0..<length (batches_of bs texts)}"
  let ?B = "batches_of bs texts"
  let ?rows = "concat (map (slot_of self views ?B) [0..<length ?B])"
  from cfg have pos: "0 < bs" by blast
  from cfg have c1: "texts \<noteq> []" and c2: "bs = nat (batch_size_or self arg)"
    and c4: "0 < max_workers self"
    and c5: "set order = {0..<length (batches_of bs texts)}"
    by blast+
  have e: "batch_embed self views order texts arg = Inr ?rows"
    using c1 c2 pos c4 c5 by (rule batch_embed_eq)
  have "\<forall>b j. b * bs + j < length texts \<and> j < bs \<longrightarrow>
            (\<forall>cs e'. cached_rows self (views b) (?B ! b) = Inr cs \<and>
                     batch_embeddings self (misses (?B ! b) cs) = Inl e' \<longrightarrow>
               ((if use_cache self then get_from_cache self (views b) (texts ! (b * bs + j))
                 else None) = None \<longrightarrow>
                  ?rows ! (b * bs + j) = zeros (embed_dim self)) \<and>
               (\<forall>v. (if use_cache self then get_from_cache self (views b) (texts ! (b * bs + j))
                     else None) = Some v \<longrightarrow>
                  set_row (embed_dim self) v = Inr (?rows ! (b * bs + j)))) \<and>
            (\<forall>e'. process_batch self (views b) (?B ! b) = Inl e' \<longrightarrow>
               ?rows ! (b * bs + j) = zeros (embed_dim self)) \<and>
            (\<forall>r. process_batch self (views b) (?B ! b) = Inr r \<longrightarrow>
               ?rows ! (b * bs + j) = fst r ! j)"
  proof (intro allI impI, elim conjE)
    fix b j
    assume i: "b * bs + j < length texts" and j: "j < bs"
    note f = batches_of_full [OF pos i j]
    have g: "?rows ! (b * bs + j) = slot_of self views ?B b ! j"
      using pos i j by (rule group_row)
    have t: "?B ! b ! j = texts ! (b * bs + j)" by (rule f(3))
    show "(\<forall>cs e'. cached_rows self (views b) (?B ! b) = Inr cs \<and>
                     batch_embeddings self (misses (?B ! b) cs) = Inl e' \<longrightarrow>
               ((if use_cache self then get_from_cache self (views b) (texts ! (b * bs + j))
                 else None) = None \<longrightarrow>
                  ?rows ! (b * bs + j) = zeros (embed_dim self)) \<and>
               (\<forall>v. (if use_cache self then get_from_cache self (views b) (texts ! (b * bs + j))
                     else None) = Some v \<longrightarrow>
                  set_row (embed_dim self) v = Inr (?rows ! (b * bs + j)))) \<and>
            (\<forall>e'. process_batch self (views b) (?B ! b) = Inl e' \<longrightarrow>
               ?rows ! (b * bs + j) = zeros (embed_dim self)) \<and>
            (\<forall>r. process_batch self (views b) (?B ! b) = Inr r \<longrightarrow>
               ?rows ! (b * bs + j) = fst r ! j)"
    proof (intro conjI allI impI)
      fix cs e'
      assume h: "cached_rows self (views b) (?B ! b) = Inr cs \<and>
                 batch_embeddings self (misses (?B ! b) cs) = Inl e'"
      then have c1: "cached_rows self (views b) (?B ! b) = Inr cs"
        and c2: "batch_embeddings self (misses (?B ! b) cs) = Inl e'" by simp_all
      note s = slot_provider_failure [where views = views and b = b and batches = "?B", OF c1 c2 f(2)]
      note s' = s [unfolded t]
      {
        assume "(if use_cache self then get_from_cache self (views b) (texts ! (b * bs + j))
                 else None) = None"
        with s' show "?rows ! (b * bs + j) = zeros (embed_dim self)"
          unfolding g by blast
      }
      {
        fix v
        assume "(if use_cache self then get_from_cache self (views b) (texts ! (b * bs + j))
                 else None) = Some v"
        with s' show "set_row (embed_dim self) v = Inr (?rows ! (b * bs + j))"
          unfolding g by blast
      }
    next
      fix e'
      assume "process_batch self (views b) (?B ! b) = Inl e'"
      then have "slot_of self views ?B b ! j = zeros (embed_dim self)"
        using f(2) by (simp add: slot_raised)
      with g show "?rows ! (b * bs + j) = zeros (embed_dim self)" by simp
    next
      fix r
      assume "process_batch self (views b) (?B ! b) = Inr r"
      then have "slot_of self views ?B b = fst r" by (simp add: slot_returned)
      with g show "?rows ! (b * bs + j) = fst r ! j" by simp
    qed
  qed
  with e show "\<exists>rows. batch_embed self views order texts arg = Inr rows \<and>
         (\<forall>b j. b * bs + j < length texts \<and> j < bs \<longrightarrow>
            (\<forall>cs e'. cached_rows self (views b) (batches_of bs texts ! b) = Inr cs \<and>
                     batch_embeddings self (misses (batches_of bs texts ! b) cs) = Inl e' \<longrightarrow>
               ((if use_cache self then get_from_cache self (views b) (texts ! (b * bs + j))
                 else None) = None \<longrightarrow>
                  rows ! (b * bs + j) = zeros (embed_dim self)) \<and>
               (\<forall>v. (if use_cache self then get_from_cache self (views b) (texts ! (b * bs + j))
                     else None) = Some v \<longrightarrow>
                  set_row (embed_dim self) v = Inr (rows ! (b * bs + j)))) \<and>
            (\<forall>e'. process_batch self (views b) (batches_of bs texts ! b) = Inl e' \<longrightarrow>
               rows ! (b * bs + j) = zeros (embed_dim self)) \<and>
            (\<forall>r. process_batch self (views b) (batches_of bs texts ! b) = Inr r \<longrightarrow>
               rows ! (b * bs + j) = fst r ! j))"
    by (intro exI conjI)
qed

theorem provider_failure_rows_witness:
  "encode ex_failing ''b'' = Inl OSError \<and> get_from_cache ex_failing (ex_warm 0) ''b'' = None \<and>
   embed ex_failing (ex_warm 0) ''b'' = ([0], ex_warm 0) \<and>
   (\<exists>rows. batch_embed ex_failing ex_warm [1, 0] [''a'', ''b'', ''cc''] None = Inr rows \<and>
      rows ! 0 = [1] \<and> rows ! 1 = [0] \<and> rows ! 2 = [2]) \<and>
   (\<exists>rows. batch_embed ex_failing ex_stale [1, 0] [''a'', ''b'', ''cc''] None = Inr rows \<and>
      rows ! 0 = [0] \<and> rows ! 1 = [0] \<and> rows ! 2 = [2])"
proof -
  let ?T = "[''a'', ''b'', ''cc'']"
  have z: "zeros (embed_dim ex_failing) = [0]"
    by (simp add: ex_failing_fields zeros_def)
  have miss: "get_from_cache ex_failing (ex_warm 0) ''b'' = None"
    by (simp add: get_from_cache_def ex_failing_def ex_warm_def)
  have hit: "get_from_cache ex_failing (ex_warm 0) ''a'' = Some [1]"
    by (simp add: get_from_cache_def ex_failing_def ex_warm_def)
  have cfg: "?T \<noteq> [] \<and> (2 :: nat) = nat (batch_size_or ex_failing None) \<and> 0 < (2 :: nat) \<and>
             0 < max_workers ex_failing \<and> set [1, 0] = {0..<length (batches_of 2 ?T)}"
    by (auto simp: batch_size_or_def ex_failing_fields ex_batches3)
  note T = provider_failure_rows [of ex_failing "''b''" OSError "ex_warm 0" ?T 2 None "[1, 0]"]
  from T [where views = ex_warm, THEN conjunct1] miss z
  have e: "embed ex_failing (ex_warm 0) ''b'' = ([0], ex_warm 0)"
    by (simp add: ex_failing_calls)
  from T [where views = ex_warm, THEN conjunct2, THEN mp, OF cfg]
  obtain rows where
    r: "batch_embed ex_failing ex_warm [1, 0] ?T None = Inr rows"
    and f: "\<And>b j. b * 2 + j < length ?T \<and> j < 2 \<Longrightarrow>
            (\<forall>cs e'. cached_rows ex_failing (ex_warm b) (batches_of 2 ?T ! b) = Inr cs \<and>
                     batch_embeddings ex_failing (misses (batches_of 2 ?T ! b) cs) = Inl e' \<longrightarrow>
               ((if use_cache ex_failing then get_from_cache ex_failing (ex_warm b) (?T ! (b * 2 + j))
                 else None) = None \<longrightarrow>
                  rows ! (b * 2 + j) = zeros (embed_dim ex_failing)) \<and>
               (\<forall>v. (if use_cache ex_failing then get_from_cache ex_failing (ex_warm b) (?T ! (b * 2 + j))
                     else None) = Some v \<longrightarrow>
                  set_row (embed_dim ex_failing) v = Inr (rows ! (b * 2 + j)))) \<and>
            (\<forall>e'. process_batch ex_failing (ex_warm b) (batches_of 2 ?T ! b) = Inl e' \<longrightarrow>
               rows ! (b * 2 + j) = zeros (embed_dim ex_failing)) \<and>
            (\<forall>r. process_batch ex_failing (ex_warm b) (batches_of 2 ?T ! b) = Inr r \<longrightarrow>
               rows ! (b * 2 + j) = fst r ! j)"
    by blast
  have fail0: "cached_rows ex_failing (ex_warm 0) (batches_of 2 ?T ! 0) = Inr [Some [1], None] \<and>
               batch_embeddings ex_failing (misses (batches_of 2 ?T ! 0) [Some [1], None]) = Inl OSError"
    by (simp add: ex_batches3 ex_warm_rows misses_def ex_failing_calls del: cached_rows.simps)
  from f [of 0 0] fail0 hit have "set_row (embed_dim ex_failing) [1] = Inr (rows ! 0)"
    by (simp add: ex_failing_fields del: cached_rows.simps)
  then have r0: "rows ! 0 = [1]"
    by (simp add: set_row_def ex_failing_fields)
  from f [of 0 1] fail0 miss z have r1: "rows ! 1 = [0]"
    by (simp add: ex_failing_fields del: cached_rows.simps)
  from f [of 1 0] have r2: "rows ! 2 = [2]"
    by (simp add: ex_batches3 ex_failing_groups)
  from T [where views = ex_stale, THEN conjunct2, THEN mp, OF cfg]
  obtain rows' where
    r': "batch_embed ex_failing ex_stale [1, 0] ?T None = Inr rows'"
    and f': "\<And>b j. b * 2 + j < length ?T \<and> j < 2 \<Longrightarrow>
            (\<forall>e'. process_batch ex_failing (ex_stale b) (batches_of 2 ?T ! b) = Inl e' \<longrightarrow>
               rows' ! (b * 2 + j) = zeros (embed_dim ex_failing)) \<and>
            (\<forall>r. process_batch ex_failing (ex_stale b) (batches_of 2 ?T ! b) = Inr r \<longrightarrow>
               rows' ! (b * 2 + j) = fst r ! j)"
    by blast
  from f' [of 0 0] z have s0: "rows' ! 0 = [0]"
    by (simp add: ex_batches3 ex_failing_groups)
  from f' [of 0 1] z have s1: "rows' ! 1 = [0]"
    by (simp add: ex_batches3 ex_failing_groups)
  from f' [of 1 0] have s2: "rows' ! 2 = [2]"
    by (simp add: ex_batches3 ex_failing_groups)
  from r r0 r1 r2 have A: "\<exists>rows. batch_embed ex_failing ex_warm [1, 0] ?T None = Inr rows \<and>
      rows ! 0 = [1] \<and> rows ! 1 = [0] \<and> rows ! 2 = [2]"
    by blast
  from r' s0 s1 s2 have B: "\<exists>rows. batch_embed ex_failing ex_stale [1, 0] ?T None = Inr rows \<and>
      rows ! 0 = [0] \<and> rows ! 1 = [0] \<and> rows ! 2 = [2]"
    by blast
  from e miss A B ex_failing_calls(3) show ?thesis by blast
qed

section \<open>Properties of the extractors\<close>

lemma ex_area:
  "rstrip (take 34 ex_two_docs) = ''/** A */ function a() {} /** B */''"
  by (simp add: ex_two_docs_def rstrip_def isspace_def whitespace_def)

lemma ex_first_match:
  "jsdoc_search ''/** A */ function a() {} /** B */'' = Some (''/** A */'', '' A '')"
  by (simp add: jsdoc_search_def)

text \<open>
  C8.  \<open>_extract_docstring\<close> searches the text before the declaration from its
  beginning, so the comment it finds is the first one of the file, and it returns
  the empty string unless the text happens to end with that very comment.  In
  \<open>ex_two_docs\<close> the declaration \<open>function b\<close> starts at position 34; the text before
  it, without trailing whitespace, ends with the comment \<open>/** B */\<close>, and the
  documentation returned for it is empty.
\<close>

theorem second_docstring_lost:
  "drop 34 ex_two_docs = ''function b() {}'' \<and>
   rstrip (take 34 ex_two_docs) = ''/** A */ function a() {} /** B */'' \<and>
   endswith (rstrip (take 34 ex_two_docs)) ''/** B */'' \<and>
   extract_docstring ex_two_docs 34 = ''''"
proof -
  have "drop 34 ex_two_docs = ''function b() {}''"
    by (simp add: ex_two_docs_def)
  moreover have "endswith ''/** A */ function a() {} /** B */'' ''/** B */''"
    by (simp add: endswith_def)
  moreover have "\<not> endswith ''/** A */ function a() {} /** B */'' ''/** A */''"
    by (simp add: endswith_def)
  then have "extract_docstring ex_two_docs 34 = ''''"
    by (simp add: extract_docstring_def ex_area ex_first_match)
  ultimately show ?thesis by (simp add: ex_area)
qed

lemma first_docstring_found:
  "extract_docstring ex_two_docs 9 = ''A''"
  by (simp add: extract_docstring_def ex_two_docs_def rstrip_def strip_def isspace_def
        whitespace_def jsdoc_search_def endswith_def)

lemma strip_empty: "strip [] = []"
  by (simp add: strip_def rstrip_def)

lemma sections_from_empty:
  "(h, c) \<in> set (sections_from [] hs) \<Longrightarrow> c = []"
  by (induction "[] :: string" hs rule: sections_from.induct) auto

lemma split_by_headings_empty:
  "(h, c) \<in> set (split_by_headings self []) \<Longrightarrow> c = []"
  by (auto simp: split_by_headings_def Let_def sections_from_empty split: if_splits)

lemma section_chunks_blank:
  "(\<And>h c. (h, c) \<in> set secs \<Longrightarrow> strip c = []) \<Longrightarrow> section_chunks path lc secs = []"
proof (induction secs)
  case Nil
  show ?case by simp
next
  case (Cons s secs)
  obtain h c where s: "s = (h, c)" by (cases s)
  have "(h, c) \<in> set (s # secs)" using s by simp
  then have "strip c = []" by (rule Cons.prems)
  moreover have "section_chunks path lc secs = []"
  proof (rule Cons.IH)
    fix h' c'
    assume "(h', c') \<in> set secs"
    then have "(h', c') \<in> set (s # secs)" by simp
    then show "strip c' = []" by (rule Cons.prems)
  qed
  ultimately show ?case using s by simp
qed

text \<open>
  C1.  The document chunk is appended without looking at the content; only the
  section loop skips blank content.  For an empty Markdown file, which
  \<open>is_valid_file\<close> accepts, \<open>extract_chunks\<close> returns exactly one chunk, and its
  \<open>full_text\<close> is empty, whatever the heading pattern matches.
\<close>

theorem empty_markdown_chunk:
  "is_valid_file (max_file_size self) ex_disk ''docs/empty.md'' \<and>
   markdown_extract_chunks self ex_disk ''docs/empty.md'' =
     [\<lparr>c_file = ''docs/empty.md'', c_name = ''empty.md'', c_type = ''document'',
       c_code = '''', c_docstring = '''', full_text = '''',
       line_start = 1, line_end = 1\<rparr>]"
proof -
  have v: "is_valid_file (max_file_size self) ex_disk ''docs/empty.md''"
    by (simp add: is_valid_file_def ex_disk_def)
  have "section_chunks ''docs/empty.md'' 1 (split_by_headings self []) = []"
  proof (rule section_chunks_blank)
    fix h c
    assume "(h, c) \<in> set (split_by_headings self [])"
    then have "c = []" by (rule split_by_headings_empty)
    then show "strip c = []" by (simp add: strip_empty)
  qed
  with v show ?thesis
    by (simp add: markdown_extract_chunks_def ex_disk_def basename_def count_newlines_def)
qed

lemma section_chunks_invariant:
  "ch \<in> set (section_chunks path lc secs) \<Longrightarrow>
   line_start ch \<le> line_end ch \<and> strip (full_text ch) \<noteq> []"
proof (induction secs arbitrary: lc)
  case Nil
  then show ?case by simp
next
  case (Cons s secs)
  obtain h c where s: "s = (h, c)" by (cases s)
  show ?case
  proof (cases "strip c = []")
    case True
    with Cons.prems s have "ch \<in> set (section_chunks path lc secs)" by simp
    then show ?thesis by (rule Cons.IH)
  next
    case False
    with Cons.prems s have
      "ch = \<lparr>c_file = path, c_name = basename path @ '':'' @ h, c_type = ''section'',
              c_code = [], c_docstring = c, full_text = c,
              line_start = lc, line_end = lc + (count_newlines c + 1) - 1\<rparr> \<or>
       ch \<in> set (section_chunks path (lc + (count_newlines c + 1) - 1 + 1) secs)"
      by (simp add: Let_def)
    then show ?thesis
    proof
      assume "ch = \<lparr>c_file = path, c_name = basename path @ '':'' @ h, c_type = ''section'',
              c_code = [], c_docstring = c, full_text = c,
              line_start = lc, line_end = lc + (count_newlines c + 1) - 1\<rparr>"
      with False show ?thesis by simp
    next
      assume "ch \<in> set (section_chunks path (lc + (count_newlines c + 1) - 1 + 1) secs)"
      then show ?thesis by (rule Cons.IH)
    qed
  qed
qed

end
